theory Spec2Isabelle
  imports Complex_Main "HOL-Library.AList"
begin

section \<open>PearlCard fare rules: rule store, caches and fare calculator\<close>

text \<open>
  The development follows the Python sources \<^verbatim>\<open>app/database.py\<close>, \<^verbatim>\<open>app/cache.py\<close>,
  \<^verbatim>\<open>app/config.py\<close>, \<^verbatim>\<open>app/models.py\<close>, \<^verbatim>\<open>app/services/fare_calculator.py\<close> and
  \<^verbatim>\<open>app/api/endpoints.py\<close>.

  Conventions of the embedding.
  \<^item> A Python \<^verbatim>\<open>float\<close> that is only stored, copied and compared (a fare in the rule
    table or in a cache, a time stamp) is a rational number: every finite float is one.
    Arithmetic on fares happens in \<^verbatim>\<open>calculate_all_fares\<close> only, which is therefore
    stated over any type with \<open>0\<close> and \<open>+\<close>, with the rounding function as a parameter.
  \<^item> \<^verbatim>\<open>time.time()\<close> is the argument \<open>now\<close> of an operation; one operation runs at one
    instant.
  \<^item> Mutable objects and module-level singletons are fields of the record \<open>world\<close>,
    passed through every operation and returned updated.
  \<^item> The relational store is a list of rows in insertion order and is always reachable;
    the Redis server may be unreachable, and every Redis command then fails with
    \<open>ConnectionError\<close>. Printing is left out.
  \<^item> The surrogate key \<^verbatim>\<open>id\<close> and the \<^verbatim>\<open>description\<close> column of a row take part in no
    lookup and are left out.
\<close>

type_synonym fare = rat
type_synonym time = rat

subsection \<open>database.py\<close>

record FareRuleDB =
  db_from_zone :: int
  db_to_zone :: int
  db_fare :: fare

record database =
  fare_rules :: "FareRuleDB list"
  system_config :: "(string \<times> string) list"

text \<open>\<^verbatim>\<open>session.query(FareRuleDB).filter_by(from_zone=a, to_zone=b).first()\<close>\<close>

definition query_first :: "FareRuleDB list \<Rightarrow> int \<Rightarrow> int \<Rightarrow> FareRuleDB option" where
  "query_first rows a b = find (\<lambda>r. db_from_zone r = a \<and> db_to_zone r = b) rows"

text \<open>Assigning \<^verbatim>\<open>rule.fare = new_fare\<close> to the row that \<^verbatim>\<open>first()\<close> returned.\<close>

fun set_fare_first :: "int \<Rightarrow> int \<Rightarrow> fare \<Rightarrow> FareRuleDB list \<Rightarrow> FareRuleDB list" where
  "set_fare_first a b f [] = []"
| "set_fare_first a b f (r # rs) =
     (if db_from_zone r = a \<and> db_to_zone r = b then r\<lparr>db_fare := f\<rparr> # rs
      else r # set_fare_first a b f rs)"

definition default_rules :: "FareRuleDB list" where
  "default_rules =
     [\<lparr>db_from_zone = 1, db_to_zone = 1, db_fare = 40\<rparr>,
      \<lparr>db_from_zone = 1, db_to_zone = 2, db_fare = 55\<rparr>,
      \<lparr>db_from_zone = 1, db_to_zone = 3, db_fare = 65\<rparr>,
      \<lparr>db_from_zone = 2, db_to_zone = 2, db_fare = 35\<rparr>,
      \<lparr>db_from_zone = 2, db_to_zone = 3, db_fare = 45\<rparr>,
      \<lparr>db_from_zone = 3, db_to_zone = 3, db_fare = 30\<rparr>]"

definition init_default_fare_rules :: "database \<Rightarrow> database" where
  "init_default_fare_rules d =
     (let d1 = (if length (fare_rules d) = 0 then d\<lparr>fare_rules := default_rules\<rparr> else d)
      in if map_of (system_config d1) ''max_journeys_per_day'' = None
         then d1\<lparr>system_config := system_config d1 @ [(''max_journeys_per_day'', ''20'')]\<rparr>
         else d1)"

text \<open>
  \<^verbatim>\<open>get_all_fare_rules\<close> builds a dict by comprehension over the rows: a key met again
  keeps its position and takes the later value, which is \<open>AList.update\<close>.
\<close>

definition get_all_fare_rules :: "database \<Rightarrow> ((int \<times> int) \<times> fare) list" where
  "get_all_fare_rules d =
     foldl (\<lambda>acc r. AList.update (db_from_zone r, db_to_zone r) (db_fare r) acc) []
       (fare_rules d)"

definition get_available_zones :: "database \<Rightarrow> int list" where
  "get_available_zones d =
     sort (remdups (concat (map (\<lambda>r. [db_from_zone r, db_to_zone r]) (fare_rules d))))"

definition is_valid_zone :: "database \<Rightarrow> int \<Rightarrow> bool" where
  "is_valid_zone d zone = (zone \<in> set (get_available_zones d))"

definition get_fare :: "database \<Rightarrow> int \<Rightarrow> int \<Rightarrow> fare option" where
  "get_fare d from_z to_z =
     (case query_first (fare_rules d) from_z to_z of
        Some rule \<Rightarrow> Some (db_fare rule)
      | None \<Rightarrow>
          (case query_first (fare_rules d) to_z from_z of
             Some rule \<Rightarrow> Some (db_fare rule)
           | None \<Rightarrow> None))"

definition update_fare_rule :: "database \<Rightarrow> int \<Rightarrow> int \<Rightarrow> fare \<Rightarrow> FareRuleDB \<times> database" where
  "update_fare_rule d from_z to_z new_fare =
     (case query_first (fare_rules d) from_z to_z of
        Some rule \<Rightarrow>
          (rule\<lparr>db_fare := new_fare\<rparr>,
           d\<lparr>fare_rules := set_fare_first from_z to_z new_fare (fare_rules d)\<rparr>)
      | None \<Rightarrow>
          (let rule = \<lparr>db_from_zone = from_z, db_to_zone = to_z, db_fare = new_fare\<rparr>
           in (rule, d\<lparr>fare_rules := fare_rules d @ [rule]\<rparr>)))"

definition get_config_value :: "database \<Rightarrow> string \<Rightarrow> string option" where
  "get_config_value d key = map_of (system_config d) key"

text \<open>
  The two uniqueness notions on the rule table: the declared constraint
  \<^verbatim>\<open>UniqueConstraint('from_zone', 'to_zone')\<close> on the ordered pair, and uniqueness of
  the unordered pair.
\<close>

definition zone_pair_uc :: "FareRuleDB list \<Rightarrow> bool" where
  "zone_pair_uc rows = distinct (map (\<lambda>r. (db_from_zone r, db_to_zone r)) rows)"

definition zone_key :: "int \<Rightarrow> int \<Rightarrow> int \<times> int" where
  "zone_key a b = (min a b, max a b)"

definition unordered_pair_unique :: "FareRuleDB list \<Rightarrow> bool" where
  "unordered_pair_unique rows =
     distinct (map (\<lambda>r. zone_key (db_from_zone r) (db_to_zone r)) rows)"

subsection \<open>cache.py: the Redis server as the client sees it\<close>

text \<open>
  A stored value is the byte string the client wrote or found. What the code does with
  it is \<^verbatim>\<open>if cached_value:\<close> and \<^verbatim>\<open>float(cached_value)\<close>, so a byte string is one of:
  a non-empty one that \<^verbatim>\<open>float\<close> parses (to the given number; \<^verbatim>\<open>str(fare)\<close> is such a
  one and parses back to \<open>fare\<close>), the empty one, or a non-empty one that \<^verbatim>\<open>float\<close>
  rejects with \<^verbatim>\<open>ValueError\<close>.
\<close>

datatype redis_bytes = FloatBytes fare | EmptyBytes | OtherBytes

datatype redis_error = ConnectionError | ResponseError

record redis_server =
  redis_up :: bool
  redis_data :: "(string \<times> (redis_bytes \<times> time option)) list"

definition redis_live :: "time \<Rightarrow> redis_server \<Rightarrow> string \<Rightarrow> redis_bytes option" where
  "redis_live now srv key =
     (case map_of (redis_data srv) key of
        None \<Rightarrow> None
      | Some (v, None) \<Rightarrow> Some v
      | Some (v, Some expires) \<Rightarrow> (if now < expires then Some v else None))"

definition redis_get :: "time \<Rightarrow> redis_server \<Rightarrow> string \<Rightarrow> redis_error + redis_bytes option" where
  "redis_get now srv key =
     (if redis_up srv then Inr (redis_live now srv key) else Inl ConnectionError)"

definition redis_setex ::
  "time \<Rightarrow> redis_server \<Rightarrow> string \<Rightarrow> int \<Rightarrow> redis_bytes \<Rightarrow> redis_error + redis_server" where
  "redis_setex now srv key seconds v =
     (if \<not> redis_up srv then Inl ConnectionError
      else if seconds \<le> 0 then Inl ResponseError
      else Inr (srv\<lparr>redis_data :=
                  AList.update key (v, Some (now + of_int seconds)) (redis_data srv)\<rparr>))"

definition redis_delete :: "redis_server \<Rightarrow> string \<Rightarrow> redis_error + redis_server" where
  "redis_delete srv key =
     (if redis_up srv then Inr (srv\<lparr>redis_data := AList.delete key (redis_data srv)\<rparr>)
      else Inl ConnectionError)"

text \<open>\<^verbatim>\<open>scan_iter("fare:*")\<close>: the live keys that start with \<^verbatim>\<open>fare:\<close>.\<close>

definition fare_pattern :: "string \<Rightarrow> bool" where
  "fare_pattern key = (take 5 key = ''fare:'')"

definition redis_scan_iter :: "time \<Rightarrow> redis_server \<Rightarrow> redis_error + string list" where
  "redis_scan_iter now srv =
     (if redis_up srv
      then Inr (filter (\<lambda>k. fare_pattern k \<and> redis_live now srv k \<noteq> None)
                  (remdups (map fst (redis_data srv))))
      else Inl ConnectionError)"

subsection \<open>cache.py: \<^verbatim>\<open>FareRulesCache\<close>\<close>

text \<open>\<^verbatim>\<open>str\<close> of an integer, as the f-string of \<^verbatim>\<open>_make_key\<close> formats it.\<close>

definition digit_char :: "nat \<Rightarrow> char" where
  "digit_char d = ''0123456789'' ! d"

fun str_nat :: "nat \<Rightarrow> string" where
  "str_nat n = (if n < 10 then [digit_char n] else str_nat (n div 10) @ [digit_char (n mod 10)])"

declare str_nat.simps [simp del]

definition str_int :: "int \<Rightarrow> string" where
  "str_int i = (if i < 0 then CHR ''-'' # str_nat (nat (- i)) else str_nat (nat i))"

text \<open>
  \<open>redis_client\<close> tells whether the attribute holds a client (\<open>True\<close>) or \<^verbatim>\<open>None\<close>.
  \<open>lru_cache\<close> is the memo table of the decorator \<^verbatim>\<open>@lru_cache(maxsize=1000)\<close> on
  \<^verbatim>\<open>get_fare_cached\<close>, most recently used entry first; its keys are the call's
  arguments as given. There is one instance of the class (the module-level singleton),
  so the table is a field of it.
\<close>

record FareRulesCache =
  ttl :: int
  redis_client :: bool
  memory_cache :: "string \<rightharpoonup> fare"
  cache_timestamps :: "string \<rightharpoonup> time"
  lru_cache :: "((int \<times> int) \<times> fare option) list"

definition lru_maxsize :: nat where
  "lru_maxsize = 1000"

text \<open>
  \<^verbatim>\<open>__init__\<close>: a client is kept when the module \<^verbatim>\<open>redis\<close> was imported, the URL is
  truthy and \<^verbatim>\<open>ping()\<close> succeeds; any exception leaves \<^verbatim>\<open>None\<close>.
\<close>

definition FareRulesCache_init ::
  "bool \<Rightarrow> redis_server \<Rightarrow> string option \<Rightarrow> int \<Rightarrow> FareRulesCache" where
  "FareRulesCache_init redis_available srv redis_url ttl0 =
     \<lparr>ttl = ttl0,
      redis_client =
        (redis_available \<and> redis_url \<noteq> None \<and> redis_url \<noteq> Some [] \<and> redis_up srv),
      memory_cache = Map.empty,
      cache_timestamps = Map.empty,
      lru_cache = []\<rparr>"

definition make_key :: "int \<Rightarrow> int \<Rightarrow> string" where
  "make_key from_z to_z =
     (let z1 = min from_z to_z; z2 = max from_z to_z
      in ''fare:'' @ str_int z1 @ '':'' @ str_int z2)"

definition is_memory_cache_valid :: "time \<Rightarrow> FareRulesCache \<Rightarrow> string \<Rightarrow> bool" where
  "is_memory_cache_valid now c key =
     (case cache_timestamps c key of
        None \<Rightarrow> False
      | Some ts \<Rightarrow> now - ts < of_int (ttl c))"

text \<open>
  Level 2 of the lookup: the \<^verbatim>\<open>try\<close> block around \<^verbatim>\<open>redis_client.get\<close>. Every exception
  (the connection error, the \<^verbatim>\<open>ValueError\<close> of \<^verbatim>\<open>float\<close>) is caught and gives no value.
\<close>

definition redis_lookup :: "time \<Rightarrow> FareRulesCache \<Rightarrow> redis_server \<Rightarrow> string \<Rightarrow> fare option" where
  "redis_lookup now c srv key =
     (if redis_client c then
        (case redis_get now srv key of
           Inl e \<Rightarrow> None
         | Inr None \<Rightarrow> None
         | Inr (Some EmptyBytes) \<Rightarrow> None
         | Inr (Some OtherBytes) \<Rightarrow> None
         | Inr (Some (FloatBytes f)) \<Rightarrow> Some f)
      else None)"

text \<open>The body of \<^verbatim>\<open>get_fare_cached\<close>, without the decorator.\<close>

definition get_fare_cached_wrapped ::
  "time \<Rightarrow> FareRulesCache \<Rightarrow> redis_server \<Rightarrow> int \<Rightarrow> int \<Rightarrow> fare option \<times> FareRulesCache" where
  "get_fare_cached_wrapped now c srv from_z to_z =
     (let key = make_key from_z to_z in
      case (if is_memory_cache_valid now c key then memory_cache c key else None) of
        Some f \<Rightarrow> (Some f, c)
      | None \<Rightarrow>
          (case redis_lookup now c srv key of
             Some f \<Rightarrow>
               (Some f, c\<lparr>memory_cache := (memory_cache c)(key \<mapsto> f),
                          cache_timestamps := (cache_timestamps c)(key \<mapsto> now)\<rparr>)
           | None \<Rightarrow> (None, c)))"

text \<open>
  The decorated method: a call whose arguments are in the memo table returns the
  memoised result (also a memoised \<^verbatim>\<open>None\<close>) and becomes the most recently used one;
  any other call runs the body, memoises its result and drops the least recently used
  entry beyond \<open>lru_maxsize\<close>.
\<close>

definition get_fare_cached ::
  "time \<Rightarrow> FareRulesCache \<Rightarrow> redis_server \<Rightarrow> int \<Rightarrow> int \<Rightarrow> fare option \<times> FareRulesCache" where
  "get_fare_cached now c srv from_z to_z =
     (case map_of (lru_cache c) (from_z, to_z) of
        Some result \<Rightarrow>
          (result,
           c\<lparr>lru_cache := ((from_z, to_z), result) #
                filter (\<lambda>e. fst e \<noteq> (from_z, to_z)) (lru_cache c)\<rparr>)
      | None \<Rightarrow>
          (let (result, c1) = get_fare_cached_wrapped now c srv from_z to_z
           in (result,
               c1\<lparr>lru_cache := take lru_maxsize (((from_z, to_z), result) # lru_cache c1)\<rparr>)))"

definition set_fare_cache ::
  "time \<Rightarrow> FareRulesCache \<Rightarrow> redis_server \<Rightarrow> int \<Rightarrow> int \<Rightarrow> fare
     \<Rightarrow> FareRulesCache \<times> redis_server" where
  "set_fare_cache now c srv from_z to_z f =
     (let key = make_key from_z to_z;
          c1 = c\<lparr>memory_cache := (memory_cache c)(key \<mapsto> f),
                 cache_timestamps := (cache_timestamps c)(key \<mapsto> now)\<rparr>
      in if redis_client c then
           (case redis_setex now srv key (ttl c) (FloatBytes f) of
              Inr srv1 \<Rightarrow> (c1, srv1)
            | Inl e \<Rightarrow> (c1, srv))
         else (c1, srv))"

text \<open>
  The loop \<^verbatim>\<open>for key in scan_iter("fare:*"): delete(key)\<close>; the server stays up or
  down for the whole of one operation.
\<close>

fun redis_delete_all :: "redis_server \<Rightarrow> string list \<Rightarrow> redis_error + redis_server" where
  "redis_delete_all srv [] = Inr srv"
| "redis_delete_all srv (key # keys) =
     (case redis_delete srv key of
        Inl e \<Rightarrow> Inl e
      | Inr srv1 \<Rightarrow> redis_delete_all srv1 keys)"

text \<open>
  \<^verbatim>\<open>if from_zone and to_zone\<close>: an argument is falsy when it is \<^verbatim>\<open>None\<close> or \<open>0\<close>.
\<close>

definition truthy :: "int option \<Rightarrow> bool" where
  "truthy z = (case z of None \<Rightarrow> False | Some v \<Rightarrow> v \<noteq> 0)"

definition invalidate_cache ::
  "time \<Rightarrow> FareRulesCache \<Rightarrow> redis_server \<Rightarrow> int option \<Rightarrow> int option
     \<Rightarrow> FareRulesCache \<times> redis_server" where
  "invalidate_cache now c srv from_zone to_zone =
     (if truthy from_zone \<and> truthy to_zone then
        (let key = make_key (the from_zone) (the to_zone);
             c1 = c\<lparr>memory_cache := (memory_cache c)(key := None),
                    cache_timestamps := (cache_timestamps c)(key := None),
                    lru_cache := []\<rparr>
         in if redis_client c then
              (case redis_delete srv key of
                 Inr srv1 \<Rightarrow> (c1, srv1)
               | Inl e \<Rightarrow> (c1, srv))
            else (c1, srv))
      else
        (let c1 = c\<lparr>memory_cache := Map.empty, cache_timestamps := Map.empty, lru_cache := []\<rparr>
         in if redis_client c then
              (case redis_scan_iter now srv of
                 Inl e \<Rightarrow> (c1, srv)
               | Inr keys \<Rightarrow>
                   (case redis_delete_all srv keys of
                      Inr srv1 \<Rightarrow> (c1, srv1)
                    | Inl e \<Rightarrow> (c1, srv)))
            else (c1, srv)))"

text \<open>
  \<^verbatim>\<open>bulk_load_fares\<close>: the loop fills the memory cache and queues one \<^verbatim>\<open>setex\<close> per rule
  in the pipeline; \<^verbatim>\<open>pipeline.execute()\<close> then runs the queued commands in order, inside
  a \<^verbatim>\<open>try\<close>.
\<close>

fun bulk_load_memory ::
  "time \<Rightarrow> FareRulesCache \<Rightarrow> ((int \<times> int) \<times> fare) list \<Rightarrow> FareRulesCache" where
  "bulk_load_memory now c [] = c"
| "bulk_load_memory now c (((from_z, to_z), f) # rules) =
     (let key = make_key from_z to_z
      in bulk_load_memory now
           (c\<lparr>memory_cache := (memory_cache c)(key \<mapsto> f),
              cache_timestamps := (cache_timestamps c)(key \<mapsto> now)\<rparr>) rules)"

fun pipeline_execute ::
  "time \<Rightarrow> redis_server \<Rightarrow> int \<Rightarrow> ((int \<times> int) \<times> fare) list \<Rightarrow> redis_error + redis_server" where
  "pipeline_execute now srv seconds [] = Inr srv"
| "pipeline_execute now srv seconds (((from_z, to_z), f) # rules) =
     (case redis_setex now srv (make_key from_z to_z) seconds (FloatBytes f) of
        Inl e \<Rightarrow> Inl e
      | Inr srv1 \<Rightarrow> pipeline_execute now srv1 seconds rules)"

definition bulk_load_fares ::
  "time \<Rightarrow> FareRulesCache \<Rightarrow> redis_server \<Rightarrow> ((int \<times> int) \<times> fare) list
     \<Rightarrow> FareRulesCache \<times> redis_server" where
  "bulk_load_fares now c srv rules =
     (let c1 = bulk_load_memory now c rules
      in if redis_client c then
           (case pipeline_execute now srv (ttl c) rules of
              Inr srv1 \<Rightarrow> (c1, srv1)
            | Inl e \<Rightarrow> (c1, srv))
         else (c1, srv))"

subsection \<open>The module-level singletons and \<^verbatim>\<open>get_fare_with_cache\<close>\<close>

text \<open>
  \<open>db_manager\<close> tells whether \<^verbatim>\<open>_db_manager\<close> is set, \<open>fare_cache\<close> is \<^verbatim>\<open>_fare_cache\<close>,
  \<open>REDIS_AVAILABLE\<close> is the module constant of that name, \<open>REDIS_URL\<close> the environment
  variable, \<open>cache_module\<close> tells whether \<^verbatim>\<open>from app.cache import get_fare_with_cache\<close>
  succeeds, and the two \<open>settings\<close> fields are the class attributes
  \<^verbatim>\<open>Settings._fare_rules_cache\<close> and \<^verbatim>\<open>Settings._zones_cache\<close>.
\<close>

record world =
  db_manager :: bool
  db :: database
  fare_cache :: "FareRulesCache option"
  redis :: redis_server
  REDIS_AVAILABLE :: bool
  REDIS_URL :: "string option"
  cache_module :: bool
  settings_fare_rules_cache :: "((int \<times> int) \<times> fare) list option"
  settings_zones_cache :: "int list option"

definition get_db_manager :: "world \<Rightarrow> world" where
  "get_db_manager w =
     (if db_manager w then w
      else w\<lparr>db_manager := True, db := init_default_fare_rules (db w)\<rparr>)"

definition getenv :: "string option \<Rightarrow> string \<Rightarrow> string" where
  "getenv var dflt = (case var of None \<Rightarrow> dflt | Some v \<Rightarrow> v)"

definition get_fare_cache :: "time \<Rightarrow> world \<Rightarrow> FareRulesCache \<times> world" where
  "get_fare_cache now w =
     (case fare_cache w of
        Some c \<Rightarrow> (c, w)
      | None \<Rightarrow>
          (let redis_url = getenv (REDIS_URL w) ''redis://localhost:6379'';
               c0 = FareRulesCache_init (REDIS_AVAILABLE w) (redis w) (Some redis_url) 3600;
               w1 = get_db_manager w;
               rules = get_all_fare_rules (db w1);
               (c1, srv1) = bulk_load_fares now c0 (redis w1) rules
           in (c1, w1\<lparr>fare_cache := Some c1, redis := srv1\<rparr>)))"

definition get_fare_with_cache :: "time \<Rightarrow> int \<Rightarrow> int \<Rightarrow> world \<Rightarrow> fare \<times> world" where
  "get_fare_with_cache now from_z to_z w =
     (let (c, w1) = get_fare_cache now w;
          (cached, c1) = get_fare_cached now c (redis w1) from_z to_z;
          w2 = w1\<lparr>fare_cache := Some c1\<rparr>
      in case cached of
           Some f \<Rightarrow> (f, w2)
         | None \<Rightarrow>
             (let w3 = get_db_manager w2
              in case get_fare (db w3) from_z to_z of
                   Some f \<Rightarrow>
                     (let (c2, srv2) = set_fare_cache now c1 (redis w3) from_z to_z f
                      in (if f = 0 then 0 else f, w3\<lparr>fare_cache := Some c2, redis := srv2\<rparr>))
                 | None \<Rightarrow> (0, w3)))"

subsection \<open>config.py: \<^verbatim>\<open>Settings\<close>\<close>

definition MAX_JOURNEYS_PER_DAY :: int where
  "MAX_JOURNEYS_PER_DAY = 20"

definition Settings_get_fare_rules :: "world \<Rightarrow> ((int \<times> int) \<times> fare) list \<times> world" where
  "Settings_get_fare_rules w =
     (case settings_fare_rules_cache w of
        Some rules \<Rightarrow> (rules, w)
      | None \<Rightarrow>
          (let w1 = get_db_manager w; rules = get_all_fare_rules (db w1)
           in (rules, w1\<lparr>settings_fare_rules_cache := Some rules\<rparr>)))"

definition Settings_get_available_zones :: "world \<Rightarrow> int list \<times> world" where
  "Settings_get_available_zones w =
     (case settings_zones_cache w of
        Some zones \<Rightarrow> (zones, w)
      | None \<Rightarrow>
          (let w1 = get_db_manager w; zones = get_available_zones (db w1)
           in (zones, w1\<lparr>settings_zones_cache := Some zones\<rparr>)))"

definition Settings_get_fare :: "time \<Rightarrow> int \<Rightarrow> int \<Rightarrow> world \<Rightarrow> fare \<times> world" where
  "Settings_get_fare now from_z to_z w =
     (if cache_module w then get_fare_with_cache now from_z to_z w
      else
        (let w1 = get_db_manager w
         in case get_fare (db w1) from_z to_z of
              Some f \<Rightarrow> (f, w1)
            | None \<Rightarrow>
                (let (rules, w2) = Settings_get_fare_rules w1
                 in (case map_of rules (zone_key from_z to_z) of
                       Some f \<Rightarrow> f
                     | None \<Rightarrow> 0, w2))))"

definition Settings_reload_fare_rules :: "world \<Rightarrow> world" where
  "Settings_reload_fare_rules w =
     (let w1 = w\<lparr>settings_fare_rules_cache := None, settings_zones_cache := None\<rparr>;
          w2 = snd (Settings_get_fare_rules w1)
      in snd (Settings_get_available_zones w2))"

definition Settings_is_valid_zone :: "int \<Rightarrow> world \<Rightarrow> bool \<times> world" where
  "Settings_is_valid_zone zone w =
     (let w1 = get_db_manager w in (is_valid_zone (db w1) zone, w1))"

text \<open>
  The administrative update as \<^verbatim>\<open>endpoints.update_fare_rule\<close> performs it once the
  request is accepted: \<^verbatim>\<open>get_db_manager().update_fare_rule(...)\<close>, then
  \<^verbatim>\<open>settings.reload_fare_rules()\<close>.
\<close>

definition db_update_fare_rule :: "int \<Rightarrow> int \<Rightarrow> fare \<Rightarrow> world \<Rightarrow> FareRuleDB \<times> world" where
  "db_update_fare_rule from_z to_z new_fare w =
     (let w1 = get_db_manager w;
          (rule, d) = update_fare_rule (db w1) from_z to_z new_fare
      in (rule, w1\<lparr>db := d\<rparr>))"

subsection \<open>models.py\<close>

datatype error = ValidationError

record Journey =
  from_zone :: int
  to_zone :: int

record 'f JourneyWithFare = Journey +
  fare :: 'f
  journey_id :: "int option"

record 'f FareResponse =
  journeys :: "'f JourneyWithFare list"
  total_daily_fare :: 'f
  journey_count :: int

text \<open>
  A zone field: the constraint \<^verbatim>\<open>ge=1\<close>, then the validator \<^verbatim>\<open>validate_zone\<close>. Both
  \<^verbatim>\<open>Journey\<close> and its subclass \<^verbatim>\<open>JourneyWithFare\<close> run it on construction.
\<close>

definition validate_zone :: "int \<Rightarrow> world \<Rightarrow> bool \<times> world" where
  "validate_zone v w = (if v < 1 then (False, w) else Settings_is_valid_zone v w)"

definition Journey_new :: "int \<Rightarrow> int \<Rightarrow> world \<Rightarrow> (error + Journey) \<times> world" where
  "Journey_new from_z to_z w =
     (let (ok1, w1) = validate_zone from_z w;
          (ok2, w2) = validate_zone to_z w1
      in (if ok1 \<and> ok2 then Inr \<lparr>from_zone = from_z, to_zone = to_z\<rparr>
          else Inl ValidationError, w2))"

definition JourneyWithFare_new ::
  "int \<Rightarrow> int \<Rightarrow> 'f \<Rightarrow> int option \<Rightarrow> world \<Rightarrow> (error + 'f JourneyWithFare) \<times> world" where
  "JourneyWithFare_new from_z to_z f jid w =
     (let (ok1, w1) = validate_zone from_z w;
          (ok2, w2) = validate_zone to_z w1
      in (if ok1 \<and> ok2
          then Inr \<lparr>from_zone = from_z, to_zone = to_z, fare = f, journey_id = jid\<rparr>
          else Inl ValidationError, w2))"

text \<open>The items of the request body, each validated; the errors are collected.\<close>

fun validate_items :: "(int \<times> int) list \<Rightarrow> world \<Rightarrow> (error + Journey list) \<times> world" where
  "validate_items [] w = (Inr [], w)"
| "validate_items ((from_z, to_z) # rest) w =
     (let (r, w1) = Journey_new from_z to_z w;
          (rs, w2) = validate_items rest w1
      in (case (r, rs) of
            (Inr j, Inr js) \<Rightarrow> Inr (j # js)
          | _ \<Rightarrow> Inl ValidationError, w2))"

text \<open>
  \<^verbatim>\<open>JourneyRequest\<close>: the items, \<^verbatim>\<open>min_items=1\<close>, \<^verbatim>\<open>max_items=20\<close>, then the validator
  \<^verbatim>\<open>validate_journey_count\<close>.
\<close>

definition JourneyRequest_new :: "(int \<times> int) list \<Rightarrow> world \<Rightarrow> (error + Journey list) \<times> world" where
  "JourneyRequest_new payload w =
     (case validate_items payload w of
        (Inl e, w1) \<Rightarrow> (Inl e, w1)
      | (Inr v, w1) \<Rightarrow>
          (if length v < 1 \<or> length v > 20 then (Inl ValidationError, w1)
           else if length v > 20 then (Inl ValidationError, w1)
           else (Inr v, w1)))"

subsection \<open>services/fare_calculator.py\<close>

text \<open>
  The loop of \<^verbatim>\<open>calculate_all_fares\<close> over \<^verbatim>\<open>enumerate(journeys, 1)\<close>, with the list
  built so far and the running total; \<open>single\<close> is the abstract method
  \<^verbatim>\<open>calculate_single_fare\<close>.
\<close>

fun calculate_all_fares_loop ::
  "(Journey \<Rightarrow> world \<Rightarrow> 'f \<times> world) \<Rightarrow> int \<Rightarrow> Journey list \<Rightarrow> 'f JourneyWithFare list
     \<Rightarrow> 'f::{zero,plus} \<Rightarrow> world \<Rightarrow> (error + 'f JourneyWithFare list \<times> 'f) \<times> world" where
  "calculate_all_fares_loop single idx [] journeys_with_fare total_fare w =
     (Inr (journeys_with_fare, total_fare), w)"
| "calculate_all_fares_loop single idx (journey # rest) journeys_with_fare total_fare w =
     (let (f, w1) = single journey w
      in case JourneyWithFare_new (from_zone journey) (to_zone journey) f (Some idx) w1 of
           (Inl e, w2) \<Rightarrow> (Inl e, w2)
         | (Inr journey_with_fare, w2) \<Rightarrow>
             calculate_all_fares_loop single (idx + 1) rest
               (journeys_with_fare @ [journey_with_fare]) (total_fare + f) w2)"

definition calculate_all_fares ::
  "('f \<Rightarrow> 'f) \<Rightarrow> (Journey \<Rightarrow> world \<Rightarrow> 'f \<times> world) \<Rightarrow> Journey list \<Rightarrow> world
     \<Rightarrow> (error + 'f::{zero,plus} FareResponse) \<times> world" where
  "calculate_all_fares round2 single js w =
     (case calculate_all_fares_loop single 1 js [] 0 w of
        (Inl e, w1) \<Rightarrow> (Inl e, w1)
      | (Inr (journeys_with_fare, total_fare), w1) \<Rightarrow>
          (Inr \<lparr>journeys = journeys_with_fare,
                total_daily_fare = round2 total_fare,
                journey_count = int (length js)\<rparr>, w1))"

text \<open>
  \<^verbatim>\<open>round(x, 2)\<close> on an exact number: to the nearest multiple of \<open>1/100\<close>, a tie to the
  even one.
\<close>

definition py_round2 :: "rat \<Rightarrow> rat" where
  "py_round2 x =
     (let y = x * 100; n = \<lfloor>y\<rfloor>; d = y - of_int n
      in of_int (if d < 1 / 2 then n
                 else if 1 / 2 < d then n + 1
                 else if even n then n else n + 1) / 100)"

definition calculate_single_fare :: "time \<Rightarrow> Journey \<Rightarrow> world \<Rightarrow> fare \<times> world" where
  "calculate_single_fare now journey w =
     Settings_get_fare now (from_zone journey) (to_zone journey) w"

definition ZoneBasedFareCalculator ::
  "time \<Rightarrow> Journey list \<Rightarrow> world \<Rightarrow> (error + fare FareResponse) \<times> world" where
  "ZoneBasedFareCalculator now = calculate_all_fares py_round2 (calculate_single_fare now)"

subsection \<open>api/endpoints.py\<close>

text \<open>
  \<open>RequestValidationError\<close> is the rejection of the body by the framework (status 422),
  before the handler runs. In the handler the \<^verbatim>\<open>HTTPException\<close> with status 400 for an
  over-long batch is raised inside the \<^verbatim>\<open>try\<close>, is not a \<^verbatim>\<open>ValueError\<close>, and is
  therefore caught by \<^verbatim>\<open>except Exception\<close> and raised again with status 500.
\<close>

datatype http_error = RequestValidationError | HTTPException nat

definition calculate_fares ::
  "(Journey list \<Rightarrow> world \<Rightarrow> (error + fare FareResponse) \<times> world) \<Rightarrow> (int \<times> int) list \<Rightarrow> world
     \<Rightarrow> (http_error + fare FareResponse) \<times> world" where
  "calculate_fares calculator payload w =
     (case JourneyRequest_new payload w of
        (Inl e, w1) \<Rightarrow> (Inl RequestValidationError, w1)
      | (Inr request_journeys, w1) \<Rightarrow>
          (if int (length request_journeys) > MAX_JOURNEYS_PER_DAY
           then (Inl (HTTPException 500), w1)
           else (case calculator request_journeys w1 of
                   (Inl e, w2) \<Rightarrow> (Inl (HTTPException 400), w2)
                 | (Inr response, w2) \<Rightarrow> (Inr response, w2))))"

subsection \<open>Notions used in the statements, and concrete states\<close>

text \<open>The rule store as \<^verbatim>\<open>get_db_manager()\<close> presents it to a caller.\<close>

definition rule_store :: "world \<Rightarrow> database" where
  "rule_store w = db (get_db_manager w)"

text \<open>A zone number that the constructor of \<^verbatim>\<open>Journey\<close> accepts.\<close>

definition registered :: "world \<Rightarrow> int \<Rightarrow> bool" where
  "registered w z = (1 \<le> z \<and> is_valid_zone (rule_store w) z)"

text \<open>
  No cache level holds a fare for the pair: the Redis server has no live value under the
  key; the cache object, where the process has one, has neither a memoised fare for the
  arguments nor an entry of the key in its memory cache; and the rules cached in
  \<^verbatim>\<open>Settings\<close>, where there are any, have none for the normalised pair.
\<close>

definition holds_no_entry :: "time \<Rightarrow> world \<Rightarrow> int \<Rightarrow> int \<Rightarrow> bool" where
  "holds_no_entry now w a b =
     (redis_live now (redis w) (make_key a b) = None \<and>
      (case fare_cache w of
         None \<Rightarrow> True
       | Some c \<Rightarrow>
           (case map_of (lru_cache c) (a, b) of Some (Some f) \<Rightarrow> False | _ \<Rightarrow> True) \<and>
           memory_cache c (make_key a b) = None) \<and>
      (case settings_fare_rules_cache w of
         None \<Rightarrow> True
       | Some rules \<Rightarrow> map_of rules (zone_key a b) = None))"

text \<open>A process that has just started, without Redis, on an empty database file.\<close>

definition fresh_world :: world where
  "fresh_world =
     \<lparr>db_manager = False, db = \<lparr>fare_rules = [], system_config = []\<rparr>, fare_cache = None,
      redis = \<lparr>redis_up = False, redis_data = []\<rparr>, REDIS_AVAILABLE = False,
      REDIS_URL = None, cache_module = True, settings_fare_rules_cache = None,
      settings_zones_cache = None\<rparr>"

definition example_rule_table :: database where
  "example_rule_table =
     \<lparr>fare_rules = [\<lparr>db_from_zone = 1, db_to_zone = 2, db_fare = 55\<rparr>], system_config = []\<rparr>"

text \<open>
  A running process whose rule table is the one of the specification's example,
  \<open>{(1,1): 40, (1,2): 55, (2,3): 45, (3,3): 30}\<close>, and one whose only rule has a fare
  of \<open>0.004\<close>.
\<close>

definition spec_example_world :: world where
  "spec_example_world =
     \<lparr>db_manager = True,
      db = \<lparr>fare_rules =
              [\<lparr>db_from_zone = 1, db_to_zone = 1, db_fare = 40\<rparr>,
               \<lparr>db_from_zone = 1, db_to_zone = 2, db_fare = 55\<rparr>,
               \<lparr>db_from_zone = 2, db_to_zone = 3, db_fare = 45\<rparr>,
               \<lparr>db_from_zone = 3, db_to_zone = 3, db_fare = 30\<rparr>],
            system_config = [(''max_journeys_per_day'', ''20'')]\<rparr>,
      fare_cache = None,
      redis = \<lparr>redis_up = False, redis_data = []\<rparr>, REDIS_AVAILABLE = False,
      REDIS_URL = None, cache_module = True, settings_fare_rules_cache = None,
      settings_zones_cache = None\<rparr>"


text \<open>A cache object with two entries and a connected Redis server with three keys.\<close>

definition example_cache :: FareRulesCache where
  "example_cache =
     \<lparr>ttl = 3600, redis_client = True,
      memory_cache = [make_key 1 2 \<mapsto> 55, make_key 2 3 \<mapsto> 45],
      cache_timestamps = [make_key 1 2 \<mapsto> 0, make_key 2 3 \<mapsto> 0],
      lru_cache = [((1, 2), Some 55)]\<rparr>"

definition example_redis :: redis_server where
  "example_redis =
     \<lparr>redis_up = True,
      redis_data = [(''fare:1:2'', (FloatBytes 55, Some 3600)),
                    (''fare:2:3'', (FloatBytes 45, Some 3600)),
                    (''session:9'', (OtherBytes, None))]\<rparr>"

text \<open>
  A history of one process: started at time \<open>0\<close> by a lookup of the fare of \<open>(1, 2)\<close>;
  then the administrative update of that fare to \<open>60\<close>, followed by
  \<^verbatim>\<open>reload_fare_rules\<close>.
\<close>

definition world_after_lookup :: world where
  "world_after_lookup = snd (Settings_get_fare 0 1 2 fresh_world)"

definition world_after_update :: world where
  "world_after_update =
     Settings_reload_fare_rules (snd (db_update_fare_rule 1 2 60 world_after_lookup))"

text \<open>
  A cache object without a Redis client and with a time to live of an hour: the fare of
  \<open>(1, 2)\<close> is stored at time \<open>0\<close> and read at time \<open>1\<close>.
\<close>

definition local_cache_after_set :: FareRulesCache where
  "local_cache_after_set =
     fst (set_fare_cache 0 (FareRulesCache_init False example_redis None 3600)
            example_redis 1 2 55)"

definition local_cache_after_get :: FareRulesCache where
  "local_cache_after_get = snd (get_fare_cached 1 local_cache_after_set example_redis 1 2)"

text \<open>
  A running process that holds a Redis client while the server is unreachable.
\<close>

definition degraded_world :: world where
  "degraded_world =
     spec_example_world
       \<lparr>fare_cache := Some example_cache,
        redis := example_redis\<lparr>redis_up := False\<rparr>,
        REDIS_AVAILABLE := True\<rparr>"

text \<open>A running process that holds a Redis client, the server being reachable.\<close>

definition connected_world :: world where
  "connected_world =
     spec_example_world
       \<lparr>fare_cache := Some example_cache, redis := example_redis, REDIS_AVAILABLE := True\<rparr>"

text \<open>
  A history of one process with Redis: started at time \<open>0\<close>, the server reachable, by
  a lookup of the fare of \<open>(1, 2)\<close>; then the server becomes unreachable; then the
  administrative update of that fare to \<open>60\<close>, followed by \<^verbatim>\<open>reload_fare_rules\<close>.
\<close>

definition redis_world :: world where
  "redis_world =
     fresh_world\<lparr>redis := \<lparr>redis_up = True, redis_data = []\<rparr>, REDIS_AVAILABLE := True\<rparr>"

definition redis_world_after_lookup :: world where
  "redis_world_after_lookup = snd (Settings_get_fare 0 1 2 redis_world)"

definition redis_lost :: "world \<Rightarrow> world" where
  "redis_lost w = w\<lparr>redis := (redis w)\<lparr>redis_up := False\<rparr>\<rparr>"

definition redis_lost_after_update :: world where
  "redis_lost_after_update =
     Settings_reload_fare_rules
       (snd (db_update_fare_rule 1 2 60 (redis_lost redis_world_after_lookup)))"

section \<open>Lemmas and theorems\<close>

subsection \<open>The cache key\<close>

lemma digit_char_inj:
  assumes "d < 10" "e < 10" "digit_char d = digit_char e"
  shows "d = e"
proof -
  have "(''0123456789'' ! d = ''0123456789'' ! e) = (d = e)"
    using assms(1,2) by (intro nth_eq_iff_index_eq) simp_all
  with assms(3) show ?thesis by (simp only: digit_char_def)
qed

lemma digit_char_digit: "d < 10 \<Longrightarrow> digit_char d \<in> set ''0123456789''"
  unfolding digit_char_def by (rule nth_mem) simp

lemma str_nat_digits: "set (str_nat n) \<subseteq> set ''0123456789''"
proof (induction n rule: less_induct)
  case (less n)
  show ?case
  proof (cases "n < 10")
    case True
    then show ?thesis using digit_char_digit [of n] by (simp add: str_nat.simps [of n])
  next
    case False
    then have "n div 10 < n" by simp
    from less [OF this] digit_char_digit [of "n mod 10"] False show ?thesis
      by (simp add: str_nat.simps [of n])
  qed
qed

lemma str_nat_not_Nil: "str_nat n \<noteq> []"
  by (simp add: str_nat.simps [of n])

lemma str_nat_inj: "str_nat n = str_nat m \<Longrightarrow> n = m"
proof (induction n arbitrary: m rule: less_induct)
  case (less n)
  have snoc: "str_nat k = (if k < 10 then [] else str_nat (k div 10)) @ [digit_char (k mod 10)]" for k
    by (simp add: str_nat.simps [of k])
  have "(if n < 10 then [] else str_nat (n div 10)) @ [digit_char (n mod 10)] = str_nat n"
    by (rule snoc [of n, symmetric])
  also have "\<dots> = str_nat m" by (rule less.prems)
  also have "\<dots> = (if m < 10 then [] else str_nat (m div 10)) @ [digit_char (m mod 10)]"
    by (rule snoc [of m])
  finally have eq: "(if n < 10 then [] else str_nat (n div 10)) = (if m < 10 then [] else str_nat (m div 10))"
    and d: "digit_char (n mod 10) = digit_char (m mod 10)"
    by (simp_all only: append1_eq_conv)
  have md: "n mod 10 = m mod 10" by (rule digit_char_inj [OF _ _ d]) simp_all
  show ?case
  proof (cases "n < 10")
    case True
    with eq str_nat_not_Nil [of "m div 10"] have "m < 10" by (cases "m < 10") auto
    with True md show ?thesis by simp
  next
    case False
    with eq str_nat_not_Nil [of "n div 10"] have m: "\<not> m < 10" by (cases "m < 10") auto
    from False have lt: "n div 10 < n" by simp
    from eq False m have "str_nat (n div 10) = str_nat (m div 10)" by simp
    from less.IH [OF lt this] have dv: "n div 10 = m div 10" .
    have "n = 10 * (n div 10) + n mod 10" by simp
    also have "\<dots> = 10 * (m div 10) + m mod 10" by (simp only: dv md)
    also have "\<dots> = m" by simp
    finally show ?thesis .
  qed
qed

lemma str_int_chars: "set (str_int i) \<subseteq> set ''-0123456789''"
proof (cases "i < 0")
  case True
  have "set (str_nat (nat (- i))) \<subseteq> set ''0123456789''" by (rule str_nat_digits)
  then have "insert CHR ''-'' (set (str_nat (nat (- i)))) \<subseteq> insert CHR ''-'' (set ''0123456789'')"
    by (rule insert_mono)
  with True show ?thesis by (simp only: str_int_def if_True list.set)
next
  case False
  have "set (str_nat (nat i)) \<subseteq> set ''0123456789''" by (rule str_nat_digits)
  also have "\<dots> \<subseteq> insert CHR ''-'' (set ''0123456789'')" by (rule subset_insertI)
  finally show ?thesis using False by (simp only: str_int_def if_False list.set)
qed

lemma str_int_inj: "str_int i = str_int j \<Longrightarrow> i = j"
proof -
  assume e: "str_int i = str_int j"
  have "CHR ''-'' \<notin> set ''0123456789''" by simp
  then have nd: "CHR ''-'' \<notin> set (str_nat n)" for n
    using str_nat_digits [of n] by blast
  have hd: "hd (str_nat n) \<noteq> CHR ''-''" for n
    using nd [of n] str_nat_not_Nil [of n] by (cases "str_nat n") auto
  show "i = j"
  proof (cases "i < 0")
    case True
    have j: "j < 0"
    proof (rule ccontr)
      assume "\<not> j < 0"
      with True e have "CHR ''-'' # str_nat (nat (- i)) = str_nat (nat j)"
        by (simp add: str_int_def)
      then have "hd (str_nat (nat j)) = CHR ''-''" by (metis list.sel(1))
      with hd [of "nat j"] show False by simp
    qed
    with True e have "str_nat (nat (- i)) = str_nat (nat (- j))" by (simp add: str_int_def)
    then have "nat (- i) = nat (- j)" by (rule str_nat_inj)
    with True j show ?thesis by simp
  next
    case False
    have j: "\<not> j < 0"
    proof
      assume "j < 0"
      with False e have "str_nat (nat i) = CHR ''-'' # str_nat (nat (- j))"
        by (simp add: str_int_def)
      then have "hd (str_nat (nat i)) = CHR ''-''" by simp
      with hd [of "nat i"] show False by simp
    qed
    with False e have "str_nat (nat i) = str_nat (nat j)" by (simp add: str_int_def)
    then have "nat i = nat j" by (rule str_nat_inj)
    with False j show ?thesis by simp
  qed
qed

lemma split_at_colon:
  assumes "s1 @ CHR '':'' # s2 = t1 @ CHR '':'' # t2"
    and "CHR '':'' \<notin> set s1" "CHR '':'' \<notin> set t1"
  shows "s1 = t1 \<and> s2 = t2"
  using assms
proof (induction s1 arbitrary: t1)
  case Nil
  then show ?case by (cases t1) auto
next
  case (Cons x s1)
  then show ?case by (cases t1) auto
qed

lemma make_key_eq_iff: "make_key a b = make_key c d \<longleftrightarrow> zone_key a b = zone_key c d"
proof
  assume "make_key a b = make_key c d"
  then have e: "str_int (min a b) @ CHR '':'' # str_int (max a b) =
      str_int (min c d) @ CHR '':'' # str_int (max c d)"
    by (simp add: make_key_def Let_def)
  have "CHR '':'' \<notin> set ''-0123456789''" by simp
  then have "CHR '':'' \<notin> set (str_int i)" for i
    using str_int_chars [of i] by blast
  from split_at_colon [OF e this this]
  have "str_int (min a b) = str_int (min c d)" "str_int (max a b) = str_int (max c d)"
    by simp_all
  then have "min a b = min c d" "max a b = max c d"
    by (auto dest: str_int_inj)
  then show "zone_key a b = zone_key c d"
    by (simp only: zone_key_def)
next
  assume "zone_key a b = zone_key c d"
  then show "make_key a b = make_key c d" by (simp add: zone_key_def make_key_def)
qed

lemma make_key_commute: "make_key a b = make_key b a"
  by (simp add: make_key_eq_iff zone_key_def min.commute max.commute)

lemma make_key_fare_pattern: "fare_pattern (make_key a b)"
  by (simp add: make_key_def fare_pattern_def Let_def)

subsection \<open>The rule table under \<^verbatim>\<open>update_fare_rule\<close>\<close>

lemma set_fare_first_keys:
  "map (\<lambda>r. (db_from_zone r, db_to_zone r)) (set_fare_first a b f rows) =
   map (\<lambda>r. (db_from_zone r, db_to_zone r)) rows"
  by (induction rows) auto

lemma query_first_set_fare_first_same:
  "query_first rows a b = Some r \<Longrightarrow>
   query_first (set_fare_first a b f rows) a b = Some (r\<lparr>db_fare := f\<rparr>)"
  by (induction rows) (auto simp: query_first_def)

lemma query_first_set_fare_first_other:
  "(a', b') \<noteq> (a, b) \<Longrightarrow>
   query_first (set_fare_first a b f rows) a' b' = query_first rows a' b'"
  by (induction rows) (auto simp: query_first_def)

lemma query_first_append_new:
  "query_first rows a b = None \<Longrightarrow>
   query_first (rows @ [\<lparr>db_from_zone = a, db_to_zone = b, db_fare = f\<rparr>]) a b =
     Some \<lparr>db_from_zone = a, db_to_zone = b, db_fare = f\<rparr>"
  by (induction rows) (auto simp: query_first_def split: if_splits)

lemma query_first_None_iff:
  "query_first rows a b = None \<longleftrightarrow> (a, b) \<notin> set (map (\<lambda>r. (db_from_zone r, db_to_zone r)) rows)"
  by (induction rows) (auto simp: query_first_def)

lemma query_first_Some_keys:
  "query_first rows a b = Some r \<Longrightarrow> db_from_zone r = a \<and> db_to_zone r = b"
  by (induction rows) (auto simp: query_first_def split: if_splits)

text \<open>
  What \<^verbatim>\<open>update_fare_rule(a, b, f)\<close> does for the pair in the order given, on a table
  that satisfies the declared constraint (no two rows with the same ordered pair
  \<open>(from_zone, to_zone)\<close>): the table satisfies the constraint afterwards, the returned
  rule is \<open>(a, b, f)\<close> and the fare looked up for \<open>(a, b)\<close> is \<open>f\<close>; and where a row
  for the ordered pair \<open>(a, b)\<close> existed, no row was added, the ordered pairs of the
  rows are as before, and the row found for any other ordered pair is unchanged.
\<close>

lemma update_fare_rule_ordered_upsert:
  assumes "zone_pair_uc (fare_rules d)"
  shows "zone_pair_uc (fare_rules (snd (update_fare_rule d a b f)))
     \<and> fst (update_fare_rule d a b f) = \<lparr>db_from_zone = a, db_to_zone = b, db_fare = f\<rparr>
     \<and> get_fare (snd (update_fare_rule d a b f)) a b = Some f
     \<and> (query_first (fare_rules d) a b \<noteq> None \<longrightarrow>
          length (fare_rules (snd (update_fare_rule d a b f))) = length (fare_rules d)
        \<and> map (\<lambda>r. (db_from_zone r, db_to_zone r)) (fare_rules (snd (update_fare_rule d a b f))) =
            map (\<lambda>r. (db_from_zone r, db_to_zone r)) (fare_rules d)
        \<and> (\<forall>a' b'. (a', b') \<noteq> (a, b) \<longrightarrow>
             query_first (fare_rules (snd (update_fare_rule d a b f))) a' b' =
             query_first (fare_rules d) a' b'))"
proof (cases "query_first (fare_rules d) a b")
  case None
  then have "(a, b) \<notin> set (map (\<lambda>r. (db_from_zone r, db_to_zone r)) (fare_rules d))"
    by (simp add: query_first_None_iff)
  with assms None show ?thesis
    by (simp add: update_fare_rule_def Let_def zone_pair_uc_def get_fare_def
        query_first_append_new)
next
  case (Some r)
  have len: "length (set_fare_first a b f (fare_rules d)) = length (fare_rules d)"
    using set_fare_first_keys [of a b f "fare_rules d"] by (metis length_map)
  from Some have r: "r\<lparr>db_fare := f\<rparr> = \<lparr>db_from_zone = a, db_to_zone = b, db_fare = f\<rparr>"
    using query_first_Some_keys [of "fare_rules d" a b r] by (cases r) simp
  from Some assms len r show ?thesis
    by (simp add: update_fare_rule_def zone_pair_uc_def set_fare_first_keys get_fare_def
        query_first_set_fare_first_same query_first_set_fare_first_other)
qed

text \<open>
  Claim C2 on the code. The table holds the one rule \<open>(1, 2)\<close> with fare \<open>55\<close>, which
  \<^verbatim>\<open>get_fare(2, 1)\<close> finds through its reversed lookup, so a rule exists for the
  unordered pair. \<^verbatim>\<open>update_fare_rule(2, 1, 70)\<close> does not overwrite it: it adds a second
  row, the declared constraint on the ordered pair accepts it, and the table then holds
  two rules for one unordered pair, with the fares \<open>55\<close> for \<open>(1, 2)\<close> and \<open>70\<close> for
  \<open>(2, 1)\<close>.
\<close>

theorem update_fare_rule_reversed_adds_rule:
  "unordered_pair_unique (fare_rules example_rule_table)
   \<and> get_fare example_rule_table 2 1 = Some 55
   \<and> fare_rules (snd (update_fare_rule example_rule_table 2 1 70)) =
       [\<lparr>db_from_zone = 1, db_to_zone = 2, db_fare = 55\<rparr>,
        \<lparr>db_from_zone = 2, db_to_zone = 1, db_fare = 70\<rparr>]
   \<and> zone_pair_uc (fare_rules (snd (update_fare_rule example_rule_table 2 1 70)))
   \<and> \<not> unordered_pair_unique (fare_rules (snd (update_fare_rule example_rule_table 2 1 70)))
   \<and> get_fare (snd (update_fare_rule example_rule_table 2 1 70)) 1 2 = Some 55
   \<and> get_fare (snd (update_fare_rule example_rule_table 2 1 70)) 2 1 = Some 70"
  by (simp add: example_rule_table_def unordered_pair_unique_def zone_pair_uc_def zone_key_def
      get_fare_def query_first_def update_fare_rule_def Let_def)

text \<open>The ordered upsert at the table with the one rule \<open>(1, 2)\<close>, updated to 60.\<close>

lemma update_fare_rule_ordered_upsert_example:
  "zone_pair_uc (fare_rules example_rule_table)
   \<and> query_first (fare_rules example_rule_table) 1 2 \<noteq> None
   \<and> fare_rules (snd (update_fare_rule example_rule_table 1 2 60)) =
       [\<lparr>db_from_zone = 1, db_to_zone = 2, db_fare = 60\<rparr>]
   \<and> zone_pair_uc (fare_rules (snd (update_fare_rule example_rule_table 1 2 60)))
   \<and> get_fare (snd (update_fare_rule example_rule_table 1 2 60)) 1 2 = Some 60
   \<and> length (fare_rules (snd (update_fare_rule example_rule_table 1 2 60))) =
       length (fare_rules example_rule_table)"
proof -
  have h: "zone_pair_uc (fare_rules example_rule_table)"
    by (simp add: example_rule_table_def zone_pair_uc_def)
  have q: "query_first (fare_rules example_rule_table) 1 2 \<noteq> None"
    by (simp add: example_rule_table_def query_first_def)
  have r: "fare_rules (snd (update_fare_rule example_rule_table 1 2 60)) =
       [\<lparr>db_from_zone = 1, db_to_zone = 2, db_fare = 60\<rparr>]"
    by (simp add: example_rule_table_def query_first_def update_fare_rule_def)
  from update_fare_rule_ordered_upsert [OF h, of 1 2 60] h q r show ?thesis by blast
qed

subsection \<open>Symmetry of the rule store on a table without reversed duplicates\<close>

lemma query_first_mem:
  "query_first rows a b = Some r \<Longrightarrow> r \<in> set rows \<and> db_from_zone r = a \<and> db_to_zone r = b"
  by (induction rows) (auto simp: query_first_def split: if_splits)

lemma unordered_pair_unique_one_direction:
  assumes "unordered_pair_unique rows" "a \<noteq> b"
    "query_first rows a b = Some r" "query_first rows b a = Some r'"
  shows False
proof -
  from assms(3,4) have m: "r \<in> set rows" "r' \<in> set rows"
    and k: "db_from_zone r = a" "db_to_zone r = b" "db_from_zone r' = b" "db_to_zone r' = a"
    by (auto dest: query_first_mem)
  then have "zone_key (db_from_zone r) (db_to_zone r) = zone_key (db_from_zone r') (db_to_zone r')"
    by (simp add: zone_key_def min.commute max.commute)
  moreover from assms(1) have "inj_on (\<lambda>r. zone_key (db_from_zone r) (db_to_zone r)) (set rows)"
    by (simp add: unordered_pair_unique_def distinct_map)
  ultimately have "r = r'" using m by (auto dest: inj_onD)
  with k assms(2) show False by simp
qed

lemma get_fare_symmetric:
  assumes "unordered_pair_unique (fare_rules d)"
  shows "get_fare d a b = get_fare d b a"
proof (cases "a = b")
  case True
  then show ?thesis by simp
next
  case False
  show ?thesis
    using unordered_pair_unique_one_direction [OF assms False]
      unordered_pair_unique_one_direction [OF assms False [symmetric]]
    by (auto simp: get_fare_def split: option.splits)
qed

subsection \<open>The rule store is left alone by lookups\<close>

lemma db_manager_get_db_manager [simp]: "db_manager (get_db_manager w)"
  by (simp add: get_db_manager_def)

lemma get_db_manager_idem [simp]: "get_db_manager (get_db_manager w) = get_db_manager w"
  by (simp add: get_db_manager_def)

lemma get_db_manager_fields [simp]:
  "fare_cache (get_db_manager w) = fare_cache w"
  "redis (get_db_manager w) = redis w"
  "REDIS_AVAILABLE (get_db_manager w) = REDIS_AVAILABLE w"
  "REDIS_URL (get_db_manager w) = REDIS_URL w"
  "cache_module (get_db_manager w) = cache_module w"
  "settings_fare_rules_cache (get_db_manager w) = settings_fare_rules_cache w"
  "settings_zones_cache (get_db_manager w) = settings_zones_cache w"
  by (simp_all add: get_db_manager_def)

lemma get_db_manager_update [simp]:
  "get_db_manager (w\<lparr>fare_cache := fc\<rparr>) = (get_db_manager w)\<lparr>fare_cache := fc\<rparr>"
  "get_db_manager (w\<lparr>redis := r\<rparr>) = (get_db_manager w)\<lparr>redis := r\<rparr>"
  "get_db_manager (w\<lparr>settings_fare_rules_cache := x\<rparr>) =
     (get_db_manager w)\<lparr>settings_fare_rules_cache := x\<rparr>"
  "get_db_manager (w\<lparr>settings_zones_cache := y\<rparr>) =
     (get_db_manager w)\<lparr>settings_zones_cache := y\<rparr>"
  by (simp_all add: get_db_manager_def)

lemma rule_store_simps [simp]:
  "rule_store (get_db_manager w) = rule_store w"
  "rule_store (w\<lparr>fare_cache := fc\<rparr>) = rule_store w"
  "rule_store (w\<lparr>redis := r\<rparr>) = rule_store w"
  "rule_store (w\<lparr>settings_fare_rules_cache := x\<rparr>) = rule_store w"
  "rule_store (w\<lparr>settings_zones_cache := y\<rparr>) = rule_store w"
  by (simp_all add: rule_store_def)

lemma rule_store_get_fare_cache [simp]:
  "rule_store (snd (get_fare_cache now w)) = rule_store w"
  by (simp add: get_fare_cache_def Let_def split: option.splits prod.splits)

lemma rule_store_get_fare_with_cache [simp]:
  "rule_store (snd (get_fare_with_cache now a b w)) = rule_store w"
proof -
  obtain c w1 where g: "get_fare_cache now w = (c, w1)" by (cases "get_fare_cache now w")
  then have "rule_store w1 = rule_store w"
    using rule_store_get_fare_cache [of now w] by simp
  with g show ?thesis
    by (simp add: get_fare_with_cache_def Let_def split: option.splits prod.splits)
qed

lemma rule_store_Settings_get_fare_rules [simp]:
  "rule_store (snd (Settings_get_fare_rules w)) = rule_store w"
  by (simp add: Settings_get_fare_rules_def Let_def split: option.splits)

lemma rule_store_Settings_get_fare [simp]:
  "rule_store (snd (Settings_get_fare now a b w)) = rule_store w"
proof (cases "cache_module w")
  case True
  then show ?thesis by (simp add: Settings_get_fare_def)
next
  case False
  obtain rules w2 where g: "Settings_get_fare_rules (get_db_manager w) = (rules, w2)"
    by (cases "Settings_get_fare_rules (get_db_manager w)")
  then have "rule_store w2 = rule_store w"
    using rule_store_Settings_get_fare_rules [of "get_db_manager w"] by simp
  with g False show ?thesis
    by (simp add: Settings_get_fare_def Let_def split: option.splits)
qed

lemma validate_zone_registered:
  "validate_zone v w = (registered w v, if v < 1 then w else get_db_manager w)"
  by (auto simp: validate_zone_def Settings_is_valid_zone_def registered_def rule_store_def Let_def)

lemma rule_store_validate_zone [simp]: "rule_store (snd (validate_zone v w)) = rule_store w"
  by (simp add: validate_zone_registered)

lemma registered_cong: "rule_store w = rule_store w' \<Longrightarrow> registered w z = registered w' z"
  by (simp add: registered_def)

lemma JourneyWithFare_new_registered:
  "registered w a \<Longrightarrow> registered w b \<Longrightarrow>
   \<exists>w2. JourneyWithFare_new a b f jid w =
           (Inr \<lparr>from_zone = a, to_zone = b, fare = f, journey_id = jid\<rparr>, w2)
       \<and> rule_store w2 = rule_store w"
  by (auto simp: JourneyWithFare_new_def validate_zone_registered Let_def registered_def)

lemma calculate_all_fares_loop_total:
  assumes single: "\<And>j w. rule_store (snd (single j w)) = rule_store w"
  shows "\<forall>j\<in>set js. registered w (from_zone j) \<and> registered w (to_zone j) \<Longrightarrow>
         \<exists>items t w'. calculate_all_fares_loop single idx js acc total_fare w = (Inr (items, t), w')"
proof (induction js arbitrary: idx acc total_fare w)
  case Nil
  then show ?case by simp
next
  case (Cons j js)
  obtain f w1 where s: "single j w = (f, w1)" by (cases "single j w")
  then have rs1: "rule_store w1 = rule_store w" using single [of j w] by simp
  from Cons.prems have "registered w1 (from_zone j)" "registered w1 (to_zone j)"
    using registered_cong [OF rs1] by simp_all
  from JourneyWithFare_new_registered [OF this, of f "Some idx"] obtain w2 where
    n: "JourneyWithFare_new (from_zone j) (to_zone j) f (Some idx) w1 =
          (Inr \<lparr>from_zone = from_zone j, to_zone = to_zone j, fare = f, journey_id = Some idx\<rparr>, w2)"
    and rs2: "rule_store w2 = rule_store w1" by blast
  from Cons.prems have "\<forall>j\<in>set js. registered w2 (from_zone j) \<and> registered w2 (to_zone j)"
    using registered_cong [of w2 w] rs1 rs2 by simp
  from Cons.IH [OF this] s n show ?case by simp
qed

subsection \<open>\<^verbatim>\<open>calculate_all_fares\<close>\<close>

lemma JourneyWithFare_new_Inr:
  "JourneyWithFare_new a b f jid w = (Inr x, w2) \<Longrightarrow>
   x = \<lparr>from_zone = a, to_zone = b, fare = f, journey_id = jid\<rparr>"
  by (auto simp: JourneyWithFare_new_def Let_def split: prod.splits if_splits)

lemma calculate_all_fares_loop_Inr:
  "calculate_all_fares_loop single idx js acc total_fare w = (Inr (items, t), w') \<Longrightarrow>
   \<exists>new. items = acc @ new
     \<and> map from_zone new = map from_zone js
     \<and> map to_zone new = map to_zone js
     \<and> map journey_id new = map Some [idx..idx + int (length js) - 1]
     \<and> t = foldl (+) total_fare (map fare new)"
proof (induction js arbitrary: idx acc total_fare w)
  case Nil
  then show ?case by simp
next
  case (Cons j js)
  obtain f w1 where s: "single j w = (f, w1)" by (cases "single j w")
  obtain r w2 where n: "JourneyWithFare_new (from_zone j) (to_zone j) f (Some idx) w1 = (r, w2)"
    by (cases "JourneyWithFare_new (from_zone j) (to_zone j) f (Some idx) w1")
  from Cons.prems s n obtain x where r: "r = Inr x"
    by (cases r) auto
  from n r have x: "x = \<lparr>from_zone = from_zone j, to_zone = to_zone j, fare = f, journey_id = Some idx\<rparr>"
    by (simp add: JourneyWithFare_new_Inr)
  from Cons.prems s n r
  have "calculate_all_fares_loop single (idx + 1) js (acc @ [x]) (total_fare + f) w2 = (Inr (items, t), w')"
    by simp
  from Cons.IH [OF this] obtain new where new:
    "items = (acc @ [x]) @ new" "map from_zone new = map from_zone js"
    "map to_zone new = map to_zone js"
    "map journey_id new = map Some [idx + 1..idx + 1 + int (length js) - 1]"
    "t = foldl (+) (total_fare + f) (map fare new)"
    by blast
  have up: "[idx..idx + int (length js)] = idx # [idx + 1..idx + int (length js)]"
    by (rule upto_rec1) simp
  show ?case
    by (rule exI [of _ "x # new"]) (simp add: new x up)
qed

lemma calculate_all_fares_Inr:
  assumes "fst (calculate_all_fares round2 single js w) = Inr resp"
  shows "map from_zone (journeys resp) = map from_zone js"
    and "map to_zone (journeys resp) = map to_zone js"
    and "map journey_id (journeys resp) = map Some [1..int (length js)]"
    and "journey_count resp = int (length js)"
    and "total_daily_fare resp = round2 (foldl (+) 0 (map fare (journeys resp)))"
proof -
  obtain r w1 where l: "calculate_all_fares_loop single 1 js [] 0 w = (r, w1)"
    by (cases "calculate_all_fares_loop single 1 js [] 0 w")
  from assms l obtain items t where r: "r = Inr (items, t)"
    by (cases r) (auto simp: calculate_all_fares_def)
  from assms l r have resp: "resp = \<lparr>journeys = items, total_daily_fare = round2 t,
      journey_count = int (length js)\<rparr>"
    by (simp add: calculate_all_fares_def)
  from calculate_all_fares_loop_Inr [OF l [unfolded r]] obtain new where
    "items = [] @ new" "map from_zone new = map from_zone js"
    "map to_zone new = map to_zone js"
    "map journey_id new = map Some [1..1 + int (length js) - 1]"
    "t = foldl (+) 0 (map fare new)"
    by blast
  with resp show "map from_zone (journeys resp) = map from_zone js"
    and "map to_zone (journeys resp) = map to_zone js"
    and "map journey_id (journeys resp) = map Some [1..int (length js)]"
    and "journey_count resp = int (length js)"
    and "total_daily_fare resp = round2 (foldl (+) 0 (map fare (journeys resp)))"
    by simp_all
qed

lemma ZoneBasedFareCalculator_total:
  assumes "\<forall>j\<in>set js. registered w (from_zone j) \<and> registered w (to_zone j)"
  shows "\<exists>resp. fst (ZoneBasedFareCalculator now js w) = Inr resp"
proof -
  have "\<And>j w. rule_store (snd (calculate_single_fare now j w)) = rule_store w"
    by (simp add: calculate_single_fare_def)
  from calculate_all_fares_loop_total [of "calculate_single_fare now", OF this assms, of 1 "[]" 0]
  obtain items t w' where
    "calculate_all_fares_loop (calculate_single_fare now) 1 js [] 0 w = (Inr (items, t), w')"
    by blast
  then show ?thesis
    by (simp add: ZoneBasedFareCalculator_def calculate_all_fares_def)
qed

lemmas eval_defs =
  ZoneBasedFareCalculator_def calculate_all_fares_def calculate_single_fare_def
  Settings_get_fare_def get_fare_with_cache_def get_fare_cache_def getenv_def
  FareRulesCache_init_def get_db_manager_def init_default_fare_rules_def default_rules_def
  get_all_fare_rules_def bulk_load_fares_def get_fare_cached_def get_fare_cached_wrapped_def
  is_memory_cache_valid_def redis_lookup_def set_fare_cache_def lru_maxsize_def
  JourneyWithFare_new_def validate_zone_def Settings_is_valid_zone_def is_valid_zone_def
  get_available_zones_def get_fare_def query_first_def make_key_def str_int_def
  str_nat.simps digit_char_def Let_def

text \<open>
  Claim C7. Whenever \<^verbatim>\<open>calculate_all_fares\<close> returns a response for the journeys
  \<open>js\<close> (whatever the method \<open>single\<close> and the rounding), the items carry the zones of
  the input journeys in the input order, their ids are \<open>1, \<dots>, n\<close> in this order, and
  \<^verbatim>\<open>journey_count\<close> is \<open>n\<close>. And the zone-based calculator does return a response for
  every list of journeys between registered zones.
\<close>

theorem calculate_all_fares_order:
  "(fst (calculate_all_fares round2 single js w) = Inr resp \<longrightarrow>
      map from_zone (journeys resp) = map from_zone js
    \<and> map to_zone (journeys resp) = map to_zone js
    \<and> map journey_id (journeys resp) = map Some [1..int (length js)]
    \<and> journey_count resp = int (length js))
   \<and> ((\<forall>j\<in>set js. registered w (from_zone j) \<and> registered w (to_zone j)) \<longrightarrow>
        (\<exists>r. fst (ZoneBasedFareCalculator now js w) = Inr r))"
  using calculate_all_fares_Inr(1-4) [of round2 single js w resp]
    ZoneBasedFareCalculator_total [of js w now]
  by blast

text \<open>
  Claim C7 at the journeys \<open>(2, 1), (1, 2), (3, 3)\<close> in a process that has just started.
\<close>

theorem calculate_all_fares_order_witness:
  "registered fresh_world 1 \<and> registered fresh_world 2 \<and> registered fresh_world 3
   \<and> fst (ZoneBasedFareCalculator 0
        [\<lparr>from_zone = 2, to_zone = 1\<rparr>, \<lparr>from_zone = 1, to_zone = 2\<rparr>,
         \<lparr>from_zone = 3, to_zone = 3\<rparr>] fresh_world) =
      Inr \<lparr>journeys =
             [\<lparr>from_zone = 2, to_zone = 1, fare = 55, journey_id = Some 1\<rparr>,
              \<lparr>from_zone = 1, to_zone = 2, fare = 55, journey_id = Some 2\<rparr>,
              \<lparr>from_zone = 3, to_zone = 3, fare = 30, journey_id = Some 3\<rparr>],
            total_daily_fare = 140, journey_count = 3\<rparr>
   \<and> map journey_id (journeys
         \<lparr>journeys =
             [\<lparr>from_zone = 2, to_zone = 1, fare = 55, journey_id = Some 1\<rparr>,
              \<lparr>from_zone = 1, to_zone = 2, fare = 55, journey_id = Some 2\<rparr>,
              \<lparr>from_zone = 3, to_zone = 3, fare = (30::rat), journey_id = Some 3\<rparr>],
          total_daily_fare = (140::rat), journey_count = 3\<rparr>) =
       map Some [1..int (length [\<lparr>from_zone = 2, to_zone = 1\<rparr>,
         \<lparr>from_zone = 1, to_zone = 2\<rparr>, \<lparr>from_zone = 3, to_zone = 3\<rparr>])]"
proof -
  let ?js = "[\<lparr>from_zone = 2, to_zone = 1\<rparr>, \<lparr>from_zone = 1, to_zone = 2\<rparr>,
              \<lparr>from_zone = 3, to_zone = 3\<rparr>]"
  let ?resp = "\<lparr>journeys =
             [\<lparr>from_zone = 2, to_zone = 1, fare = 55, journey_id = Some 1\<rparr>,
              \<lparr>from_zone = 1, to_zone = 2, fare = 55, journey_id = Some 2\<rparr>,
              \<lparr>from_zone = 3, to_zone = 3, fare = (30::rat), journey_id = Some 3\<rparr>],
            total_daily_fare = (140::rat), journey_count = 3\<rparr>"
  have reg: "registered fresh_world 1 \<and> registered fresh_world 2 \<and> registered fresh_world 3"
    by (simp add: registered_def rule_store_def fresh_world_def eval_defs)
  then have all: "\<forall>j\<in>set ?js. registered fresh_world (from_zone j) \<and> registered fresh_world (to_zone j)"
    by simp
  have ev: "fst (ZoneBasedFareCalculator 0 ?js fresh_world) = Inr ?resp"
    by code_simp
  then have "fst (calculate_all_fares py_round2 (calculate_single_fare 0) ?js fresh_world) = Inr ?resp"
    by (simp only: ZoneBasedFareCalculator_def)
  with all calculate_all_fares_order [of py_round2 "calculate_single_fare 0" ?js fresh_world ?resp 0]
  have "map journey_id (journeys ?resp) = map Some [1..int (length ?js)]"
    by blast
  with reg ev show ?thesis by blast
qed







subsection \<open>\<^verbatim>\<open>invalidate_cache\<close>\<close>

lemma redis_delete_all_up:
  "redis_up srv \<Longrightarrow>
   \<exists>srv1. redis_delete_all srv keys = Inr srv1 \<and> redis_up srv1
     \<and> map_of (redis_data srv1) = (\<lambda>k. if k \<in> set keys then None else map_of (redis_data srv) k)"
proof (induction keys arbitrary: srv)
  case Nil
  then show ?case by simp
next
  case (Cons key keys)
  let ?s = "srv\<lparr>redis_data := AList.delete key (redis_data srv)\<rparr>"
  from Cons.prems have d: "redis_delete srv key = Inr ?s" by (simp add: redis_delete_def)
  from Cons.prems have "redis_up ?s" by simp
  from Cons.IH [OF this] obtain srv1 where
    "redis_delete_all ?s keys = Inr srv1" "redis_up srv1"
    "map_of (redis_data srv1) = (\<lambda>k. if k \<in> set keys then None else map_of (redis_data ?s) k)"
    by blast
  with d show ?case by (auto simp: fun_eq_iff AList.delete_conv')
qed

lemma redis_live_cong:
  "map_of (redis_data s1) k = map_of (redis_data s2) k \<Longrightarrow> redis_live now s1 k = redis_live now s2 k"
  by (simp add: redis_live_def)

lemma redis_live_absent: "map_of (redis_data s) k = None \<Longrightarrow> redis_live now s k = None"
  by (simp add: redis_live_def)

lemma redis_live_in_keys:
  assumes "redis_live now s k \<noteq> None"
  shows "k \<in> set (map fst (redis_data s))"
proof (rule ccontr)
  assume "k \<notin> set (map fst (redis_data s))"
  then have "map_of (redis_data s) k = None" by (simp add: map_of_eq_None_iff)
  then have "redis_live now s k = None" by (rule redis_live_absent)
  with assms show False by simp
qed

lemma clear_all_redis:
  assumes "redis_up srv"
  shows "\<exists>keys srv1. redis_scan_iter now srv = Inr keys \<and> redis_delete_all srv keys = Inr srv1
     \<and> (\<forall>k. redis_live now srv1 k = (if fare_pattern k then None else redis_live now srv k))"
proof -
  define keys where "keys = filter (\<lambda>k. fare_pattern k \<and> redis_live now srv k \<noteq> None)
    (remdups (map fst (redis_data srv)))"
  have mem: "k \<in> set keys \<longleftrightarrow> fare_pattern k \<and> redis_live now srv k \<noteq> None" for k
    using redis_live_in_keys [of now srv k] by (auto simp: keys_def)
  from assms have sc: "redis_scan_iter now srv = Inr keys"
    by (simp add: redis_scan_iter_def keys_def)
  from redis_delete_all_up [OF assms, of keys] obtain srv1 where
    d: "redis_delete_all srv keys = Inr srv1"
    and m: "map_of (redis_data srv1) = (\<lambda>k. if k \<in> set keys then None else map_of (redis_data srv) k)"
    by blast
  have "redis_live now srv1 k = (if fare_pattern k then None else redis_live now srv k)" for k
  proof (cases "k \<in> set keys")
    case True
    with m have "map_of (redis_data srv1) k = None" by simp
    then have "redis_live now srv1 k = None" by (rule redis_live_absent)
    with True mem [of k] show ?thesis by simp
  next
    case False
    with m have e: "map_of (redis_data srv1) k = map_of (redis_data srv) k" by simp
    from False mem [of k] have "\<not> fare_pattern k \<or> redis_live now srv k = None" by blast
    with redis_live_cong [OF e, of now] show ?thesis by auto
  qed
  with sc d show ?thesis by blast
qed

lemma truthy_iff: "truthy z \<longleftrightarrow> (\<exists>v. z = Some v \<and> v \<noteq> 0)"
  by (cases z) (simp_all add: truthy_def)

lemma invalidate_cache_specific:
  assumes "truthy fz" "truthy tz"
  shows "memory_cache (fst (invalidate_cache now c srv fz tz)) =
           (memory_cache c)(make_key (the fz) (the tz) := None)"
    and "cache_timestamps (fst (invalidate_cache now c srv fz tz)) =
           (cache_timestamps c)(make_key (the fz) (the tz) := None)"
    and "lru_cache (fst (invalidate_cache now c srv fz tz)) = []"
    and "snd (invalidate_cache now c srv fz tz) =
           (if redis_client c \<and> redis_up srv
            then srv\<lparr>redis_data := AList.delete (make_key (the fz) (the tz)) (redis_data srv)\<rparr>
            else srv)"
  using assms by (simp_all add: invalidate_cache_def Let_def redis_delete_def)

lemma invalidate_cache_all_local:
  assumes "\<not> (truthy fz \<and> truthy tz)"
  shows "memory_cache (fst (invalidate_cache now c srv fz tz)) = Map.empty"
    and "cache_timestamps (fst (invalidate_cache now c srv fz tz)) = Map.empty"
    and "lru_cache (fst (invalidate_cache now c srv fz tz)) = []"
  using assms by (auto simp: invalidate_cache_def Let_def split: sum.splits)

lemma invalidate_cache_all_redis:
  assumes "\<not> (truthy fz \<and> truthy tz)" "redis_client c" "redis_up srv"
  shows "redis_live now (snd (invalidate_cache now c srv fz tz)) k =
           (if fare_pattern k then None else redis_live now srv k)"
proof -
  from clear_all_redis [OF assms(3), of now] obtain keys srv1 where
    "redis_scan_iter now srv = Inr keys" "redis_delete_all srv keys = Inr srv1"
    "\<forall>k. redis_live now srv1 k = (if fare_pattern k then None else redis_live now srv k)"
    by blast
  with assms(1,2) show ?thesis by (auto simp: invalidate_cache_def Let_def)
qed

lemma invalidate_cache_all_unreachable:
  assumes "\<not> (truthy fz \<and> truthy tz)" "\<not> (redis_client c \<and> redis_up srv)"
  shows "snd (invalidate_cache now c srv fz tz) = srv"
  using assms by (auto simp: invalidate_cache_def Let_def redis_scan_iter_def split: sum.splits)

text \<open>
  Claim C10. \<^verbatim>\<open>invalidate_cache\<close> takes the single-entry branch exactly when both
  arguments are given and are not \<open>0\<close>. In that branch the entry of the normalised key,
  and no other, leaves the memory cache and the time stamps (the entry of every other
  unordered pair of zones is kept), the memo table of
  \<^verbatim>\<open>get_fare_cached\<close> is emptied, and a connected Redis server loses that key only. In
  every other call (an argument missing or \<open>0\<close>) the memory cache, the time stamps and
  the memo table are emptied and a connected Redis server keeps no live key that matches
  \<^verbatim>\<open>fare:*\<close>, its other keys being as before. Without a client, or with the server
  unreachable, the server is left as it was.
\<close>

theorem invalidate_cache_branches:
  "((truthy fz \<and> truthy tz) = (\<exists>a b. fz = Some a \<and> tz = Some b \<and> a \<noteq> 0 \<and> b \<noteq> 0))
   \<and> (truthy fz \<and> truthy tz \<longrightarrow>
        memory_cache (fst (invalidate_cache now c srv fz tz)) =
          (memory_cache c)(make_key (the fz) (the tz) := None)
      \<and> cache_timestamps (fst (invalidate_cache now c srv fz tz)) =
          (cache_timestamps c)(make_key (the fz) (the tz) := None)
      \<and> (\<forall>a b. zone_key a b \<noteq> zone_key (the fz) (the tz) \<longrightarrow>
            memory_cache (fst (invalidate_cache now c srv fz tz)) (make_key a b) =
              memory_cache c (make_key a b))
      \<and> lru_cache (fst (invalidate_cache now c srv fz tz)) = []
      \<and> (redis_client c \<and> redis_up srv \<longrightarrow>
            map_of (redis_data (snd (invalidate_cache now c srv fz tz))) =
              (map_of (redis_data srv))(make_key (the fz) (the tz) := None)))
   \<and> (\<not> (truthy fz \<and> truthy tz) \<longrightarrow>
        memory_cache (fst (invalidate_cache now c srv fz tz)) = Map.empty
      \<and> cache_timestamps (fst (invalidate_cache now c srv fz tz)) = Map.empty
      \<and> lru_cache (fst (invalidate_cache now c srv fz tz)) = []
      \<and> (redis_client c \<and> redis_up srv \<longrightarrow>
            (\<forall>k. redis_live now (snd (invalidate_cache now c srv fz tz)) k =
                   (if fare_pattern k then None else redis_live now srv k))))
   \<and> (\<not> (redis_client c \<and> redis_up srv) \<longrightarrow> snd (invalidate_cache now c srv fz tz) = srv)"
proof -
  have t: "(truthy fz \<and> truthy tz) = (\<exists>a b. fz = Some a \<and> tz = Some b \<and> a \<noteq> 0 \<and> b \<noteq> 0)"
    by (auto simp: truthy_iff)
  have u: "\<not> (redis_client c \<and> redis_up srv) \<longrightarrow> snd (invalidate_cache now c srv fz tz) = srv"
    using invalidate_cache_specific(4) [of fz tz now c srv]
      invalidate_cache_all_unreachable [of fz tz c srv now]
    by (cases "truthy fz \<and> truthy tz") auto
  have s: "truthy fz \<and> truthy tz \<longrightarrow> redis_client c \<and> redis_up srv \<longrightarrow>
            map_of (redis_data (snd (invalidate_cache now c srv fz tz))) =
              (map_of (redis_data srv))(make_key (the fz) (the tz) := None)"
    using invalidate_cache_specific(4) [of fz tz now c srv] by (simp add: AList.delete_conv')
  have o: "truthy fz \<and> truthy tz \<longrightarrow>
      (\<forall>a b. zone_key a b \<noteq> zone_key (the fz) (the tz) \<longrightarrow>
            memory_cache (fst (invalidate_cache now c srv fz tz)) (make_key a b) =
              memory_cache c (make_key a b))"
    using invalidate_cache_specific(1) [of fz tz now c srv] by (simp add: make_key_eq_iff)
  from t u s o invalidate_cache_specific(1-3) [of fz tz now c srv]
    invalidate_cache_all_local [of fz tz now c srv]
    invalidate_cache_all_redis [of fz tz c srv now]
  show ?thesis by blast
qed

lemma example_keys:
  "make_key 1 2 = ''fare:1:2''" "make_key 2 1 = ''fare:1:2''" "make_key 2 3 = ''fare:2:3''"
  by (simp_all add: make_key_def str_int_def str_nat.simps digit_char_def)

text \<open>
  Claim C10 at a cache with the entries of \<open>(1, 2)\<close> and \<open>(2, 3)\<close> and a connected server
  with the keys \<^verbatim>\<open>fare:1:2\<close>, \<^verbatim>\<open>fare:2:3\<close> and \<^verbatim>\<open>session:9\<close>: the call with the zones
  \<open>2\<close> and \<open>1\<close> removes the entry of \<^verbatim>\<open>fare:1:2\<close> and keeps that of \<^verbatim>\<open>fare:2:3\<close>; the
  call with the one zone \<open>1\<close> empties the memory cache and leaves only \<^verbatim>\<open>session:9\<close> on
  the server.
\<close>

theorem invalidate_cache_branches_witness:
  "truthy (Some 2) \<and> truthy (Some 1) \<and> \<not> (truthy (Some 1) \<and> truthy None)
   \<and> redis_client example_cache \<and> redis_up example_redis
   \<and> memory_cache (fst (invalidate_cache 10 example_cache example_redis (Some 2) (Some 1)))
        ''fare:1:2'' = None
   \<and> memory_cache (fst (invalidate_cache 10 example_cache example_redis (Some 2) (Some 1)))
        ''fare:2:3'' = Some 45
   \<and> map_of (redis_data (snd (invalidate_cache 10 example_cache example_redis (Some 2) (Some 1))))
        ''fare:2:3'' = Some (FloatBytes 45, Some 3600)
   \<and> map_of (redis_data (snd (invalidate_cache 10 example_cache example_redis (Some 2) (Some 1))))
        ''fare:1:2'' = None
   \<and> memory_cache (fst (invalidate_cache 10 example_cache example_redis (Some 1) None)) = Map.empty
   \<and> lru_cache (fst (invalidate_cache 10 example_cache example_redis (Some 1) None)) = []
   \<and> redis_live 10 (snd (invalidate_cache 10 example_cache example_redis (Some 1) None))
        ''fare:2:3'' = None
   \<and> redis_live 10 (snd (invalidate_cache 10 example_cache example_redis (Some 1) None))
        ''session:9'' = Some OtherBytes"
proof -
  have h: "truthy (Some 2) \<and> truthy (Some 1)" "\<not> (truthy (Some 1) \<and> truthy None)"
    "redis_client example_cache \<and> redis_up example_redis"
    by (simp_all add: truthy_def example_cache_def example_redis_def)
  note a = invalidate_cache_branches [of "Some 2" "Some 1" 10 example_cache example_redis]
  note b = invalidate_cache_branches [of "Some 1" None 10 example_cache example_redis]
  from a h have a1: "memory_cache (fst (invalidate_cache 10 example_cache example_redis (Some 2) (Some 1))) =
      (memory_cache example_cache)(make_key 2 1 := None)"
    and a2: "map_of (redis_data (snd (invalidate_cache 10 example_cache example_redis (Some 2) (Some 1)))) =
      (map_of (redis_data example_redis))(make_key 2 1 := None)"
    by simp_all
  from b h have b1: "memory_cache (fst (invalidate_cache 10 example_cache example_redis (Some 1) None)) = Map.empty"
    and b2: "lru_cache (fst (invalidate_cache 10 example_cache example_redis (Some 1) None)) = []"
    and b3: "\<forall>k. redis_live 10 (snd (invalidate_cache 10 example_cache example_redis (Some 1) None)) k =
                   (if fare_pattern k then None else redis_live 10 example_redis k)"
    by blast+
  have l: "redis_live 10 example_redis ''session:9'' = Some OtherBytes"
    "fare_pattern ''fare:2:3''" "\<not> fare_pattern ''session:9''"
    by (simp_all add: redis_live_def example_redis_def fare_pattern_def)
  from h a1 a2 b1 b2 b3 l show ?thesis
    by (simp add: example_keys example_cache_def example_redis_def)
qed

subsection \<open>Stale answers of the cache\<close>

lemma Settings_reload_fare_rules_cache:
  "fare_cache (Settings_reload_fare_rules w) = fare_cache w"
  "redis (Settings_reload_fare_rules w) = redis w"
  by (simp_all add: Settings_reload_fare_rules_def Settings_get_fare_rules_def
      Settings_get_available_zones_def Let_def split: option.splits)

text \<open>
  Claim C3 on the code. With no Redis client and a time to live of 3600 seconds, the fare
  stored at time \<open>0\<close> and read once at time \<open>1\<close> is returned again at time \<open>4000\<close>:
  the entry is no longer valid there and the body of the method reports a miss, but
  the decorator answers from the memo table.
\<close>

theorem get_fare_cached_returns_expired:
  "\<not> redis_client local_cache_after_set
   \<and> fst (get_fare_cached 1 local_cache_after_set example_redis 1 2) = Some 55
   \<and> cache_timestamps local_cache_after_get (make_key 1 2) = Some 0
   \<and> ttl local_cache_after_get = 3600
   \<and> \<not> is_memory_cache_valid 4000 local_cache_after_get (make_key 1 2)
   \<and> fst (get_fare_cached_wrapped 4000 local_cache_after_get example_redis 1 2) = None
   \<and> fst (get_fare_cached 4000 local_cache_after_get example_redis 1 2) = Some 55"
  by code_simp

text \<open>
  Claim C1 on the code. \<^verbatim>\<open>reload_fare_rules\<close> never touches the \<^verbatim>\<open>FareRulesCache\<close>
  object nor the Redis server. In the history \<open>world_after_update\<close> (a lookup of
  \<open>(1, 2)\<close>, the update of its fare to \<open>60\<close>, the reload) the rule store holds the
  new fare, and the next lookup still answers \<open>55\<close>.
\<close>

theorem reload_fare_rules_keeps_cached_fare:
  "fare_cache (Settings_reload_fare_rules w) = fare_cache w
   \<and> redis (Settings_reload_fare_rules w) = redis w
   \<and> fst (Settings_get_fare 0 1 2 fresh_world) = 55
   \<and> get_fare (rule_store world_after_update) 1 2 = Some 60
   \<and> fst (Settings_get_fare 1 1 2 world_after_update) = 55"
proof -
  have "fst (Settings_get_fare 0 1 2 fresh_world) = 55"
    "get_fare (rule_store world_after_update) 1 2 = Some 60"
    "fst (Settings_get_fare 1 1 2 world_after_update) = 55"
    by code_simp+
  then show ?thesis by (simp add: Settings_reload_fare_rules_cache)
qed

text \<open>
  Claim C4 on the code. In the same history, at time \<open>4000\<close> (the memory entry has
  expired), the lookup of \<open>(1, 2)\<close> is answered from the memo table with the old fare and
  the lookup of \<open>(2, 1)\<close>, whose arguments are not in the memo table, from the rule store
  with the new one, in the same state and also one after the other. In the rule store
  itself, after \<^verbatim>\<open>update_fare_rule(2, 1, 70)\<close> on the table with the rule \<open>(1, 2)\<close>, the
  two directions have different fares.
\<close>

theorem get_fare_not_symmetric:
  "registered world_after_update 1 \<and> registered world_after_update 2
   \<and> fst (Settings_get_fare 4000 1 2 world_after_update) = 55
   \<and> fst (Settings_get_fare 4000 2 1 world_after_update) = 60
   \<and> fst (Settings_get_fare 4000 2 1 (snd (Settings_get_fare 4000 1 2 world_after_update))) = 60
   \<and> get_fare (snd (update_fare_rule example_rule_table 2 1 70)) 1 2 = Some 55
   \<and> get_fare (snd (update_fare_rule example_rule_table 2 1 70)) 2 1 = Some 70"
  by code_simp

subsection \<open>Misses and the rule store\<close>

lemma redis_lookup_absent:
  "redis_live now srv key = None \<Longrightarrow> redis_lookup now c srv key = None"
  by (simp add: redis_lookup_def redis_get_def)

lemma redis_lookup_down: "\<not> redis_up srv \<Longrightarrow> redis_lookup now c srv key = None"
  by (simp add: redis_lookup_def redis_get_def)

lemma get_fare_cached_wrapped_miss:
  assumes "\<not> is_memory_cache_valid now c (make_key a b) \<or> memory_cache c (make_key a b) = None"
    and "redis_lookup now c srv (make_key a b) = None"
  shows "get_fare_cached_wrapped now c srv a b = (None, c)"
  using assms by (auto simp: get_fare_cached_wrapped_def Let_def)

lemma get_fare_cached_miss:
  assumes "\<forall>f. map_of (lru_cache c) (a, b) \<noteq> Some (Some f)"
    and "\<not> is_memory_cache_valid now c (make_key a b) \<or> memory_cache c (make_key a b) = None"
    and "redis_lookup now c srv (make_key a b) = None"
  shows "fst (get_fare_cached now c srv a b) = None"
proof (cases "map_of (lru_cache c) (a, b)")
  case None
  with get_fare_cached_wrapped_miss [OF assms(2,3)] show ?thesis
    by (simp add: get_fare_cached_def)
next
  case (Some r)
  with assms(1) have "r = None" by (cases r) auto
  with Some show ?thesis by (simp add: get_fare_cached_def)
qed

lemma get_fare_with_cache_on_miss:
  assumes "fst (get_fare_cached now (fst (get_fare_cache now w)) (redis (snd (get_fare_cache now w))) a b) = None"
  shows "fst (get_fare_with_cache now a b w) =
           (case get_fare (rule_store w) a b of Some f \<Rightarrow> f | None \<Rightarrow> 0)"
proof -
  obtain c w1 where g: "get_fare_cache now w = (c, w1)" by (cases "get_fare_cache now w")
  obtain r c1 where h: "get_fare_cached now c (redis w1) a b = (r, c1)"
    by (cases "get_fare_cached now c (redis w1) a b")
  from assms g h have r: "r = None" by simp
  have rs: "rule_store w1 = rule_store w"
    using rule_store_get_fare_cache [of now w] g by simp
  then have "db (get_db_manager w1) = rule_store w" by (simp add: rule_store_def)
  with g h r show ?thesis
    by (simp add: get_fare_with_cache_def Let_def split: option.splits prod.splits)
qed

lemma get_fare_None_keys:
  assumes "get_fare d a b = None" "r \<in> set (fare_rules d)"
  shows "zone_key (db_from_zone r) (db_to_zone r) \<noteq> zone_key a b"
proof
  assume z: "zone_key (db_from_zone r) (db_to_zone r) = zone_key a b"
  from assms(1) have "query_first (fare_rules d) a b = None" "query_first (fare_rules d) b a = None"
    by (auto simp: get_fare_def split: option.splits)
  then have "(a, b) \<notin> set (map (\<lambda>r. (db_from_zone r, db_to_zone r)) (fare_rules d))"
    "(b, a) \<notin> set (map (\<lambda>r. (db_from_zone r, db_to_zone r)) (fare_rules d))"
    by (simp_all add: query_first_None_iff)
  with assms(2) have "(db_from_zone r, db_to_zone r) \<noteq> (a, b)" "(db_from_zone r, db_to_zone r) \<noteq> (b, a)"
    by auto
  with z show False by (auto simp: zone_key_def min_def max_def split: if_splits)
qed

lemma keys_foldl_update:
  "fst ` set (foldl (\<lambda>acc r. AList.update (db_from_zone r, db_to_zone r) (db_fare r) acc) acc rows) =
   fst ` set acc \<union> (\<lambda>r. (db_from_zone r, db_to_zone r)) ` set rows"
  by (induction rows arbitrary: acc) (simp_all add: AList.dom_update Un_assoc)

lemma get_all_fare_rules_keys:
  "fst ` set (get_all_fare_rules d) = (\<lambda>r. (db_from_zone r, db_to_zone r)) ` set (fare_rules d)"
  by (simp add: get_all_fare_rules_def keys_foldl_update)

lemma bulk_load_memory_other:
  "\<forall>p\<in>set rules. make_key (fst (fst p)) (snd (fst p)) \<noteq> k \<Longrightarrow>
   memory_cache (bulk_load_memory now c rules) k = memory_cache c k
   \<and> lru_cache (bulk_load_memory now c rules) = lru_cache c
   \<and> redis_client (bulk_load_memory now c rules) = redis_client c"
  by (induction now c rules rule: bulk_load_memory.induct) (auto simp: Let_def)

lemma pipeline_execute_other:
  "\<forall>p\<in>set rules. make_key (fst (fst p)) (snd (fst p)) \<noteq> k \<Longrightarrow>
   pipeline_execute now srv seconds rules = Inr srv1 \<Longrightarrow>
   map_of (redis_data srv1) k = map_of (redis_data srv) k"
proof (induction now srv seconds rules rule: pipeline_execute.induct)
  case (1 now srv seconds)
  then show ?case by simp
next
  case (2 now srv seconds from_z to_z f rules)
  from "2.prems"(2) obtain s where
    s: "redis_setex now srv (make_key from_z to_z) seconds (FloatBytes f) = Inr s"
    by (cases "redis_setex now srv (make_key from_z to_z) seconds (FloatBytes f)") auto
  with "2.prems" have "pipeline_execute now s seconds rules = Inr srv1" by simp
  with "2.IH" [OF s] "2.prems"(1) have "map_of (redis_data srv1) k = map_of (redis_data s) k"
    by simp
  moreover from s "2.prems"(1) have "map_of (redis_data s) k = map_of (redis_data srv) k"
    by (auto simp: redis_setex_def AList.update_conv' split: if_splits)
  ultimately show ?case by simp
qed

lemma bulk_load_fares_other:
  assumes "\<forall>p\<in>set rules. make_key (fst (fst p)) (snd (fst p)) \<noteq> k"
  shows "memory_cache (fst (bulk_load_fares now c srv rules)) k = memory_cache c k"
    and "lru_cache (fst (bulk_load_fares now c srv rules)) = lru_cache c"
    and "redis_live now (snd (bulk_load_fares now c srv rules)) k = redis_live now srv k"
proof -
  note m = bulk_load_memory_other [OF assms, of now c]
  show "memory_cache (fst (bulk_load_fares now c srv rules)) k = memory_cache c k"
    and "lru_cache (fst (bulk_load_fares now c srv rules)) = lru_cache c"
    using m by (auto simp: bulk_load_fares_def Let_def split: sum.splits)
  show "redis_live now (snd (bulk_load_fares now c srv rules)) k = redis_live now srv k"
  proof (cases "pipeline_execute now srv (ttl c) rules")
    case (Inl e)
    then show ?thesis by (simp add: bulk_load_fares_def Let_def)
  next
    case (Inr srv1)
    from pipeline_execute_other [OF assms this]
    have "redis_live now srv1 k = redis_live now srv k" by (rule redis_live_cong)
    with Inr show ?thesis by (simp add: bulk_load_fares_def Let_def)
  qed
qed

lemma holds_no_entry_get_fare_cache:
  assumes "get_fare (rule_store w) a b = None" "holds_no_entry now w a b"
  shows "(\<forall>f. map_of (lru_cache (fst (get_fare_cache now w))) (a, b) \<noteq> Some (Some f))
     \<and> memory_cache (fst (get_fare_cache now w)) (make_key a b) = None
     \<and> redis_live now (redis (snd (get_fare_cache now w))) (make_key a b) = None"
proof (cases "fare_cache w")
  case (Some c)
  with assms(2) show ?thesis
    by (auto simp: holds_no_entry_def get_fare_cache_def split: option.splits)
next
  case None
  let ?rules = "get_all_fare_rules (db (get_db_manager w))"
  let ?c0 = "FareRulesCache_init (REDIS_AVAILABLE w) (redis w)
         (Some (getenv (REDIS_URL w) ''redis://localhost:6379'')) 3600"
  have k: "\<forall>p\<in>set ?rules. make_key (fst (fst p)) (snd (fst p)) \<noteq> make_key a b"
  proof
    fix p assume "p \<in> set ?rules"
    then have "fst p \<in> fst ` set ?rules" by (rule imageI)
    then obtain r where r: "r \<in> set (fare_rules (db (get_db_manager w)))"
      "fst p = (db_from_zone r, db_to_zone r)"
      by (auto simp: get_all_fare_rules_keys)
    from get_fare_None_keys [OF assms(1) [unfolded rule_store_def] r(1)] r(2)
    show "make_key (fst (fst p)) (snd (fst p)) \<noteq> make_key a b"
      by (simp add: make_key_eq_iff)
  qed
  note b = bulk_load_fares_other [OF k, of now ?c0 "redis w"]
  obtain c1 srv1 where l: "bulk_load_fares now ?c0 (redis w) ?rules = (c1, srv1)"
    by (cases "bulk_load_fares now ?c0 (redis w) ?rules")
  with b have "memory_cache c1 (make_key a b) = None" "lru_cache c1 = []"
    "redis_live now srv1 (make_key a b) = redis_live now (redis w) (make_key a b)"
    by (simp_all add: FareRulesCache_init_def)
  with None l assms(2) show ?thesis
    by (simp add: get_fare_cache_def Let_def holds_no_entry_def)
qed

lemma Settings_fallback_no_rule:
  assumes "get_fare (rule_store w) a b = None" "holds_no_entry now w a b"
  shows "map_of (fst (Settings_get_fare_rules (get_db_manager w))) (zone_key a b) = None"
proof (cases "settings_fare_rules_cache w")
  case (Some rules)
  with assms(2) show ?thesis
    by (simp add: holds_no_entry_def Settings_get_fare_rules_def)
next
  case None
  have "zone_key a b \<notin> fst ` set (get_all_fare_rules (db (get_db_manager w)))"
  proof
    assume "zone_key a b \<in> fst ` set (get_all_fare_rules (db (get_db_manager w)))"
    then obtain r where r: "r \<in> set (fare_rules (db (get_db_manager w)))"
      "zone_key a b = (db_from_zone r, db_to_zone r)"
      by (auto simp: get_all_fare_rules_keys)
    from r(2) have "zone_key (db_from_zone r) (db_to_zone r) = zone_key a b"
      by (auto simp: zone_key_def min_def max_def split: if_splits)
    with get_fare_None_keys [OF assms(1) [unfolded rule_store_def] r(1)] show False by simp
  qed
  then have "map_of (get_all_fare_rules (db (get_db_manager w))) (zone_key a b) = None"
    by (simp add: map_of_eq_None_iff)
  with None show ?thesis by (simp add: Settings_get_fare_rules_def Let_def)
qed

text \<open>
  Claim C8. Let no fare rule exist in the rule store for \<open>(a, b)\<close> in either order, and
  let no cache level hold a fare for the pair. Then \<^verbatim>\<open>get_fare_with_cache\<close> returns \<open>0\<close>,
  and so does \<^verbatim>\<open>Settings.get_fare\<close>, through it or through its fallback. Both are total
  functions with no error result.
\<close>

theorem get_fare_with_cache_no_rule:
  assumes "get_fare (rule_store w) a b = None" and "holds_no_entry now w a b"
  shows "fst (get_fare_with_cache now a b w) = 0 \<and> fst (Settings_get_fare now a b w) = 0"
proof -
  note h = holds_no_entry_get_fare_cache [OF assms]
  from h have "redis_lookup now (fst (get_fare_cache now w))
      (redis (snd (get_fare_cache now w))) (make_key a b) = None"
    by (intro redis_lookup_absent) simp
  with h have "fst (get_fare_cached now (fst (get_fare_cache now w))
      (redis (snd (get_fare_cache now w))) a b) = None"
    by (intro get_fare_cached_miss) auto
  from get_fare_with_cache_on_miss [OF this] assms(1)
  have c: "fst (get_fare_with_cache now a b w) = 0" by simp
  have "fst (Settings_get_fare now a b w) = 0"
  proof (cases "cache_module w")
    case True
    with c show ?thesis by (simp add: Settings_get_fare_def)
  next
    case False
    obtain rules w2 where g: "Settings_get_fare_rules (get_db_manager w) = (rules, w2)"
      by (cases "Settings_get_fare_rules (get_db_manager w)")
    with Settings_fallback_no_rule [OF assms] have "map_of rules (zone_key a b) = None"
      by simp
    with False assms(1) g show ?thesis
      by (simp add: Settings_get_fare_def rule_store_def Let_def)
  qed
  with c show ?thesis by simp
qed

text \<open>
  Claim C8 at the pair \<open>(1, 5)\<close>: in a process that has just started (the default rules
  have no rule for the pair), and in a running process with a cache object and a
  connected server, at time \<open>10\<close>.
\<close>

theorem get_fare_with_cache_no_rule_witness:
  "get_fare (rule_store fresh_world) 1 5 = None
   \<and> holds_no_entry 0 fresh_world 1 5
   \<and> fst (get_fare_with_cache 0 1 5 fresh_world) = 0
   \<and> fst (Settings_get_fare 0 1 5 fresh_world) = 0
   \<and> get_fare (rule_store connected_world) 1 5 = None
   \<and> holds_no_entry 10 connected_world 1 5
   \<and> fst (get_fare_with_cache 10 1 5 connected_world) = 0"
proof -
  have h: "get_fare (rule_store fresh_world) 1 5 = None" "holds_no_entry 0 fresh_world 1 5"
    "get_fare (rule_store connected_world) 1 5 = None" "holds_no_entry 10 connected_world 1 5"
    by code_simp+
  from get_fare_with_cache_no_rule [OF h(1,2)] get_fare_with_cache_no_rule [OF h(3,4)] h
  show ?thesis by simp
qed

subsection \<open>The unreachable Redis server\<close>

lemma pipeline_execute_down:
  "\<not> redis_up srv \<Longrightarrow>
   pipeline_execute now srv seconds rules = (if rules = [] then Inr srv else Inl ConnectionError)"
  by (cases rules) (auto simp: redis_setex_def)

lemma bulk_load_fares_down: "\<not> redis_up srv \<Longrightarrow> snd (bulk_load_fares now c srv rules) = srv"
  by (simp add: bulk_load_fares_def Let_def pipeline_execute_down)

lemma set_fare_cache_down:
  "\<not> redis_up srv \<Longrightarrow>
   set_fare_cache now c srv a b f =
     (c\<lparr>memory_cache := (memory_cache c)(make_key a b \<mapsto> f),
        cache_timestamps := (cache_timestamps c)(make_key a b \<mapsto> now)\<rparr>, srv)"
  by (simp add: set_fare_cache_def Let_def redis_setex_def)

lemma invalidate_cache_down: "\<not> redis_up srv \<Longrightarrow> snd (invalidate_cache now c srv fz tz) = srv"
  using invalidate_cache_specific(4) [of fz tz now c srv]
    invalidate_cache_all_unreachable [of fz tz c srv now]
  by (cases "truthy fz \<and> truthy tz") auto

lemma redis_get_fare_cache_down:
  "\<not> redis_up (redis w) \<Longrightarrow> redis (snd (get_fare_cache now w)) = redis w"
proof (cases "fare_cache w")
  case None
  assume d: "\<not> redis_up (redis w)"
  obtain c1 srv1 where b: "bulk_load_fares now
      (FareRulesCache_init (REDIS_AVAILABLE w) (redis w)
         (Some (getenv (REDIS_URL w) ''redis://localhost:6379'')) 3600)
      (redis w) (get_all_fare_rules (db (get_db_manager w))) = (c1, srv1)"
    by (cases "bulk_load_fares now
      (FareRulesCache_init (REDIS_AVAILABLE w) (redis w)
         (Some (getenv (REDIS_URL w) ''redis://localhost:6379'')) 3600)
      (redis w) (get_all_fare_rules (db (get_db_manager w)))")
  with bulk_load_fares_down [OF d, of now _ "get_all_fare_rules (db (get_db_manager w))"]
  have "srv1 = redis w" by (metis snd_conv)
  with None b show ?thesis by (simp add: get_fare_cache_def Let_def)
next
  case (Some c)
  then show ?thesis by (simp add: get_fare_cache_def)
qed

lemma redis_get_fare_with_cache_down:
  assumes d: "\<not> redis_up (redis w)"
  shows "redis (snd (get_fare_with_cache now a b w)) = redis w"
proof -
  obtain c w1 where g: "get_fare_cache now w = (c, w1)" by (cases "get_fare_cache now w")
  with redis_get_fare_cache_down [OF d, of now] have r1: "redis w1 = redis w" by simp
  obtain r c1 where h: "get_fare_cached now c (redis w) a b = (r, c1)"
    by (cases "get_fare_cached now c (redis w) a b")
  from d g h r1 show ?thesis
    by (simp add: get_fare_with_cache_def Let_def set_fare_cache_down
        split: option.splits prod.splits)
qed

text \<open>
  The operations on an unreachable Redis server. The constructor keeps no client;
  the shared level of a lookup gives no value; \<^verbatim>\<open>set_fare_cache\<close> writes the memory cache
  only; \<^verbatim>\<open>set_fare_cache\<close>, \<^verbatim>\<open>invalidate_cache\<close>, \<^verbatim>\<open>bulk_load_fares\<close> and
  \<^verbatim>\<open>get_fare_with_cache\<close> leave the server as it was; and a lookup that the local levels
  do not answer (no memoised fare, no valid memory entry) returns the fare of the rule
  store, or \<open>0\<close> where the store has none. All these operations are total functions with
  no error result: the \<open>ConnectionError\<close> of a Redis command is consumed where it arises.
\<close>

lemma shared_cache_unreachable_fails_soft:
  assumes "\<not> redis_up (redis w)"
  shows "\<not> redis_client (FareRulesCache_init avail (redis w) url t)
     \<and> redis_get now (redis w) key = Inl ConnectionError
     \<and> redis_lookup now c (redis w) key = None
     \<and> set_fare_cache now c (redis w) a b f =
         (c\<lparr>memory_cache := (memory_cache c)(make_key a b \<mapsto> f),
            cache_timestamps := (cache_timestamps c)(make_key a b \<mapsto> now)\<rparr>, redis w)
     \<and> snd (invalidate_cache now c (redis w) fz tz) = redis w
     \<and> snd (bulk_load_fares now c (redis w) rules) = redis w
     \<and> redis (snd (get_fare_with_cache now a b w)) = redis w
     \<and> ((\<forall>x. map_of (lru_cache (fst (get_fare_cache now w))) (a, b) \<noteq> Some (Some x))
          \<and> (\<not> is_memory_cache_valid now (fst (get_fare_cache now w)) (make_key a b)
               \<or> memory_cache (fst (get_fare_cache now w)) (make_key a b) = None) \<longrightarrow>
         fst (get_fare_with_cache now a b w) =
           (case get_fare (rule_store w) a b of Some x \<Rightarrow> x | None \<Rightarrow> 0))"
proof -
  have miss: "fst (get_fare_with_cache now a b w) =
           (case get_fare (rule_store w) a b of Some x \<Rightarrow> x | None \<Rightarrow> 0)"
    if l: "\<forall>x. map_of (lru_cache (fst (get_fare_cache now w))) (a, b) \<noteq> Some (Some x)"
      and m: "\<not> is_memory_cache_valid now (fst (get_fare_cache now w)) (make_key a b)
               \<or> memory_cache (fst (get_fare_cache now w)) (make_key a b) = None"
  proof -
    from assms have "\<not> redis_up (redis (snd (get_fare_cache now w)))"
      by (simp add: redis_get_fare_cache_down)
    then have "redis_lookup now (fst (get_fare_cache now w))
        (redis (snd (get_fare_cache now w))) (make_key a b) = None"
      by (rule redis_lookup_down)
    from get_fare_cached_miss [OF l m this] show ?thesis
      by (rule get_fare_with_cache_on_miss)
  qed
  from assms have "\<not> redis_client (FareRulesCache_init avail (redis w) url t)"
    "redis_get now (redis w) key = Inl ConnectionError"
    by (simp_all add: FareRulesCache_init_def redis_get_def)
  with assms miss show ?thesis
    by (simp add: redis_lookup_down set_fare_cache_down invalidate_cache_down
        bulk_load_fares_down redis_get_fare_with_cache_down)
qed

text \<open>
  A process that holds a client while the server is unreachable, at time \<open>4000\<close>: the
  memory entry of \<open>(2, 3)\<close> has expired, the server cannot be asked, and the lookup
  returns the fare \<open>45\<close> of the rule store.
\<close>

lemma shared_cache_unreachable_fails_soft_example:
  "\<not> redis_up (redis degraded_world)
   \<and> fare_cache degraded_world = Some example_cache
   \<and> redis_client example_cache
   \<and> map_of (lru_cache example_cache) (2, 3) = None
   \<and> \<not> is_memory_cache_valid 4000 example_cache (make_key 2 3)
   \<and> get_fare (rule_store degraded_world) 2 3 = Some 45
   \<and> fst (get_fare_with_cache 4000 2 3 degraded_world) = 45
   \<and> redis (snd (get_fare_with_cache 4000 2 3 degraded_world)) = redis degraded_world
   \<and> redis_lookup 4000 example_cache (redis degraded_world) (make_key 2 3) = None"
proof -
  have h: "\<not> redis_up (redis degraded_world)"
    "fare_cache degraded_world = Some example_cache"
    "redis_client example_cache"
    "map_of (lru_cache example_cache) (2, 3) = None"
    "\<not> is_memory_cache_valid 4000 example_cache (make_key 2 3)"
    "get_fare (rule_store degraded_world) 2 3 = Some 45"
    by (simp_all add: degraded_world_def spec_example_world_def example_redis_def
        example_cache_def is_memory_cache_valid_def example_keys rule_store_def
        get_db_manager_def get_fare_def query_first_def)
  from h(2) have c: "fst (get_fare_cache 4000 degraded_world) = example_cache"
    by (simp add: get_fare_cache_def)
  note t = shared_cache_unreachable_fails_soft [OF h(1), where now = 4000
      and c = example_cache and key = "make_key 2 3" and a = 2 and b = 3]
  from t h c have "fst (get_fare_with_cache 4000 2 3 degraded_world) = 45"
    by simp
  moreover from t have "redis (snd (get_fare_with_cache 4000 2 3 degraded_world)) = redis degraded_world"
    "redis_lookup 4000 example_cache (redis degraded_world) (make_key 2 3) = None"
    by blast+
  ultimately show ?thesis using h by blast
qed

text \<open>
  Claim C5 on the code. The operations on the shared cache do fail soft, but the fare
  returned is not always the one of the rule store. In the history without Redis (no
  client is kept at construction) and in the history that loses the server after the
  first lookup (a client is held, the server is unreachable at call time), the rule
  store holds the fare \<open>60\<close> of \<open>(1, 2)\<close> after the update and the reload, and the next
  lookup answers \<open>55\<close> from the local levels of the cache.
\<close>

theorem get_fare_stale_when_redis_unreachable:
  "map_option redis_client (fare_cache world_after_update) = Some False
   \<and> get_fare (rule_store world_after_update) 1 2 = Some 60
   \<and> fst (get_fare_with_cache 1 1 2 world_after_update) = 55
   \<and> fst (Settings_get_fare 1 1 2 world_after_update) = 55
   \<and> map_option redis_client (fare_cache redis_lost_after_update) = Some True
   \<and> redis_up (redis redis_lost_after_update) = False
   \<and> get_fare (rule_store redis_lost_after_update) 1 2 = Some 60
   \<and> fst (get_fare_with_cache 1 1 2 redis_lost_after_update) = 55
   \<and> fst (Settings_get_fare 1 1 2 redis_lost_after_update) = 55"
  by code_simp

subsection \<open>The request and the batch limit\<close>

lemma validate_zone_fields [simp]:
  "fare_cache (snd (validate_zone v w)) = fare_cache w"
  "redis (snd (validate_zone v w)) = redis w"
  by (simp_all add: validate_zone_registered)

lemma Journey_new_result:
  "fst (Journey_new a b w) =
     (if registered w a \<and> registered w b then Inr \<lparr>from_zone = a, to_zone = b\<rparr>
      else Inl ValidationError)"
  "rule_store (snd (Journey_new a b w)) = rule_store w"
  "fare_cache (snd (Journey_new a b w)) = fare_cache w"
  "redis (snd (Journey_new a b w)) = redis w"
  by (auto simp: Journey_new_def validate_zone_registered Let_def registered_def)

lemma validate_items_frame:
  "rule_store (snd (validate_items payload w)) = rule_store w
   \<and> fare_cache (snd (validate_items payload w)) = fare_cache w
   \<and> redis (snd (validate_items payload w)) = redis w"
proof (induction payload arbitrary: w)
  case Nil
  then show ?case by simp
next
  case (Cons p payload)
  obtain a b where p: "p = (a, b)" by (cases p)
  obtain r w1 where j: "Journey_new a b w = (r, w1)" by (cases "Journey_new a b w")
  obtain rs w2 where v: "validate_items payload w1 = (rs, w2)"
    by (cases "validate_items payload w1")
  from j Journey_new_result(2-4) [of a b w]
  have "rule_store w1 = rule_store w" "fare_cache w1 = fare_cache w" "redis w1 = redis w"
    by simp_all
  with Cons.IH [of w1] v p j show ?case by simp
qed

lemma validate_items_length:
  "validate_items payload w = (Inr v, w') \<Longrightarrow> length v = length payload"
proof (induction payload arbitrary: w v w')
  case Nil
  then show ?case by simp
next
  case (Cons p payload)
  obtain a b where p: "p = (a, b)" by (cases p)
  obtain r w1 where j: "Journey_new a b w = (r, w1)" by (cases "Journey_new a b w")
  obtain rs w2 where i: "validate_items payload w1 = (rs, w2)"
    by (cases "validate_items payload w1")
  from Cons.prems p j i obtain x xs where "r = Inr x" "rs = Inr xs" "v = x # xs"
    by (cases r; cases rs) auto
  with Cons.IH [of w1 xs w2] i show ?case by simp
qed

lemma validate_items_registered:
  "\<forall>p\<in>set payload. registered w (fst p) \<and> registered w (snd p) \<Longrightarrow>
   fst (validate_items payload w) =
     Inr (map (\<lambda>p. \<lparr>from_zone = fst p, to_zone = snd p\<rparr>) payload)"
proof (induction payload arbitrary: w)
  case Nil
  then show ?case by simp
next
  case (Cons p payload)
  obtain a b where p: "p = (a, b)" by (cases p)
  obtain r w1 where j: "Journey_new a b w = (r, w1)" by (cases "Journey_new a b w")
  obtain rs w2 where i: "validate_items payload w1 = (rs, w2)"
    by (cases "validate_items payload w1")
  from Cons.prems p j Journey_new_result(1) [of a b w]
  have r: "r = Inr \<lparr>from_zone = a, to_zone = b\<rparr>" by simp
  from j Journey_new_result(2) [of a b w] have "rule_store w1 = rule_store w" by simp
  with Cons.prems have "\<forall>p\<in>set payload. registered w1 (fst p) \<and> registered w1 (snd p)"
    using registered_cong [of w1 w] by simp
  from Cons.IH [OF this] i have "rs = Inr (map (\<lambda>p. \<lparr>from_zone = fst p, to_zone = snd p\<rparr>) payload)"
    by simp
  with p j i r show ?case by simp
qed

lemma JourneyRequest_new_too_long:
  assumes "20 < length payload"
  shows "fst (JourneyRequest_new payload w) = Inl ValidationError"
proof -
  obtain r w1 where v: "validate_items payload w = (r, w1)"
    by (cases "validate_items payload w")
  show ?thesis
  proof (cases r)
    case (Inl e)
    with v show ?thesis by (cases e) (simp add: JourneyRequest_new_def)
  next
    case (Inr js)
    with v validate_items_length [of payload w js w1] assms show ?thesis
      by (simp add: JourneyRequest_new_def)
  qed
qed

lemma JourneyRequest_new_frame:
  "rule_store (snd (JourneyRequest_new payload w)) = rule_store w"
  "fare_cache (snd (JourneyRequest_new payload w)) = fare_cache w"
  "redis (snd (JourneyRequest_new payload w)) = redis w"
  "snd (JourneyRequest_new payload w) = snd (validate_items payload w)"
  using validate_items_frame [of payload w]
  by (auto simp: JourneyRequest_new_def split: prod.splits sum.splits)

lemma JourneyRequest_new_accepts:
  assumes "\<forall>p\<in>set payload. registered w (fst p) \<and> registered w (snd p)"
    and "1 \<le> length payload" "length payload \<le> 20"
  shows "fst (JourneyRequest_new payload w) =
     Inr (map (\<lambda>p. \<lparr>from_zone = fst p, to_zone = snd p\<rparr>) payload)"
proof -
  obtain r w1 where v: "validate_items payload w = (r, w1)"
    by (cases "validate_items payload w")
  with validate_items_registered [OF assms(1)]
  have "r = Inr (map (\<lambda>p. \<lparr>from_zone = fst p, to_zone = snd p\<rparr>) payload)" by simp
  with v assms(2,3) show ?thesis by (auto simp: JourneyRequest_new_def)
qed

lemma calculate_fares_rejects:
  assumes "int (length payload) = MAX_JOURNEYS_PER_DAY + 1"
  shows "calculate_fares calculator payload w =
           (Inl RequestValidationError, snd (validate_items payload w))"
proof -
  from assms have "20 < length payload" by (simp add: MAX_JOURNEYS_PER_DAY_def)
  from JourneyRequest_new_too_long [OF this, of w] JourneyRequest_new_frame(4) [of payload w]
  show ?thesis
    by (cases "JourneyRequest_new payload w") (simp add: calculate_fares_def)
qed

lemma calculate_fares_accepts:
  assumes "int (length payload) = MAX_JOURNEYS_PER_DAY"
    and "\<forall>p\<in>set payload. registered w (fst p) \<and> registered w (snd p)"
  shows "\<exists>resp. fst (calculate_fares (ZoneBasedFareCalculator now) payload w) = Inr resp
     \<and> journey_count resp = MAX_JOURNEYS_PER_DAY
     \<and> map (\<lambda>i. (from_zone i, to_zone i)) (journeys resp) = payload"
proof -
  let ?js = "map (\<lambda>p. \<lparr>from_zone = fst p, to_zone = snd p\<rparr>) payload"
  from assms(1) have len: "1 \<le> length payload" "length payload \<le> 20"
    by (simp_all add: MAX_JOURNEYS_PER_DAY_def)
  obtain r w1 where q: "JourneyRequest_new payload w = (r, w1)"
    by (cases "JourneyRequest_new payload w")
  with JourneyRequest_new_accepts [OF assms(2) len] have r: "r = Inr ?js" by simp
  from q JourneyRequest_new_frame(1) [of payload w] have "rule_store w1 = rule_store w" by simp
  with assms(2) have "\<forall>j\<in>set ?js. registered w1 (from_zone j) \<and> registered w1 (to_zone j)"
    using registered_cong [of w1 w] by simp
  from ZoneBasedFareCalculator_total [OF this, of now] obtain resp where
    z: "fst (ZoneBasedFareCalculator now ?js w1) = Inr resp" by blast
  then have "fst (calculate_all_fares py_round2 (calculate_single_fare now) ?js w1) = Inr resp"
    by (simp only: ZoneBasedFareCalculator_def)
  from calculate_all_fares_Inr(1,2,4) [OF this]
  have m: "map from_zone (journeys resp) = map from_zone ?js"
    "map to_zone (journeys resp) = map to_zone ?js"
    "journey_count resp = int (length ?js)" by simp_all
  have "map (\<lambda>i. (from_zone i, to_zone i)) (journeys resp) = payload"
  proof (rule nth_equalityI)
    from m(1) have l: "length (journeys resp) = length payload"
      by (metis length_map)
    then show "length (map (\<lambda>i. (from_zone i, to_zone i)) (journeys resp)) = length payload"
      by simp
    fix k assume "k < length (map (\<lambda>i. (from_zone i, to_zone i)) (journeys resp))"
    with l have k: "k < length payload" "k < length (journeys resp)" by simp_all
    from m(1) k have "from_zone (journeys resp ! k) = fst (payload ! k)"
      by (metis (no_types, lifting) length_map nth_map Journey.select_convs(1))
    moreover from m(2) k have "to_zone (journeys resp ! k) = snd (payload ! k)"
      by (metis (no_types, lifting) length_map nth_map Journey.select_convs(2))
    ultimately show "map (\<lambda>i. (from_zone i, to_zone i)) (journeys resp) ! k = payload ! k"
      using k by simp
  qed
  moreover from z q r assms(1) have "fst (calculate_fares (ZoneBasedFareCalculator now) payload w) = Inr resp"
    by (cases "ZoneBasedFareCalculator now ?js w1") (simp add: calculate_fares_def)
  ultimately show ?thesis using m(3) assms(1) by auto
qed

text \<open>
  Claim C9. The maximum is \<open>MAX_JOURNEYS_PER_DAY = 20\<close>, which is also the bound of the
  request model and the value that the first use of the database writes into an empty
  configuration table. A batch of exactly that many journeys between registered zones is
  accepted, and the response of the zone-based calculator has that many items, those of
  the batch in its order. A batch of one more is rejected by the validation of the
  request: the result is the validation error together with the state the validation
  left, whatever the calculator is, so the calculator is not consulted; the cache object,
  the Redis server and the rule store are as before.
\<close>

theorem batch_limit_boundary:
  "(int (length payload) = MAX_JOURNEYS_PER_DAY
      \<and> (\<forall>p\<in>set payload. registered w (fst p) \<and> registered w (snd p)) \<longrightarrow>
      (\<exists>resp. fst (calculate_fares (ZoneBasedFareCalculator now) payload w) = Inr resp
         \<and> journey_count resp = MAX_JOURNEYS_PER_DAY
         \<and> map (\<lambda>i. (from_zone i, to_zone i)) (journeys resp) = payload))
   \<and> (int (length payload) = MAX_JOURNEYS_PER_DAY + 1 \<longrightarrow>
        calculate_fares calculator payload w =
          (Inl RequestValidationError, snd (validate_items payload w))
      \<and> fare_cache (snd (calculate_fares calculator payload w)) = fare_cache w
      \<and> redis (snd (calculate_fares calculator payload w)) = redis w
      \<and> rule_store (snd (calculate_fares calculator payload w)) = rule_store w)
   \<and> (\<not> db_manager w \<and> system_config (db w) = [] \<longrightarrow>
        get_config_value (rule_store w) ''max_journeys_per_day'' = Some ''20'')"
proof -
  have c: "\<not> db_manager w \<and> system_config (db w) = [] \<longrightarrow>
        get_config_value (rule_store w) ''max_journeys_per_day'' = Some ''20''"
    by (simp add: rule_store_def get_db_manager_def init_default_fare_rules_def
        get_config_value_def Let_def)
  have "int (length payload) = MAX_JOURNEYS_PER_DAY + 1 \<longrightarrow>
        calculate_fares calculator payload w =
          (Inl RequestValidationError, snd (validate_items payload w))
      \<and> fare_cache (snd (calculate_fares calculator payload w)) = fare_cache w
      \<and> redis (snd (calculate_fares calculator payload w)) = redis w
      \<and> rule_store (snd (calculate_fares calculator payload w)) = rule_store w"
    using calculate_fares_rejects [of payload calculator w] validate_items_frame [of payload w]
    by simp
  with c calculate_fares_accepts [of payload w now] show ?thesis by blast
qed

text \<open>
  Claim C9 in a process that has just started: twenty journeys \<open>(1, 1)\<close> are accepted
  and processed, twenty-one are rejected and no cache object comes into being.
\<close>

theorem batch_limit_boundary_witness:
  "int (length (replicate 20 (1::int, 1::int))) = MAX_JOURNEYS_PER_DAY
   \<and> registered fresh_world 1
   \<and> (\<exists>resp. fst (calculate_fares (ZoneBasedFareCalculator 0) (replicate 20 (1, 1)) fresh_world)
               = Inr resp
         \<and> journey_count resp = 20
         \<and> map (\<lambda>i. (from_zone i, to_zone i)) (journeys resp) = replicate 20 (1, 1))
   \<and> int (length (replicate 21 (1::int, 1::int))) = MAX_JOURNEYS_PER_DAY + 1
   \<and> fst (calculate_fares (ZoneBasedFareCalculator 0) (replicate 21 (1, 1)) fresh_world) =
       Inl RequestValidationError
   \<and> fare_cache (snd (calculate_fares (ZoneBasedFareCalculator 0) (replicate 21 (1, 1))
        fresh_world)) = None
   \<and> get_config_value (rule_store fresh_world) ''max_journeys_per_day'' = Some ''20''"
proof -
  have l: "int (length (replicate 20 (1::int, 1::int))) = MAX_JOURNEYS_PER_DAY"
    "int (length (replicate 21 (1::int, 1::int))) = MAX_JOURNEYS_PER_DAY + 1"
    by (simp_all add: MAX_JOURNEYS_PER_DAY_def)
  have r: "registered fresh_world 1"
    by (simp add: registered_def rule_store_def fresh_world_def eval_defs)
  then have a: "\<forall>p\<in>set (replicate 20 (1::int, 1::int)).
      registered fresh_world (fst p) \<and> registered fresh_world (snd p)"
    by simp
  have f: "fare_cache fresh_world = None" by (simp add: fresh_world_def)
  note t20 = batch_limit_boundary [where payload = "replicate 20 (1, 1)" and w = fresh_world
      and now = 0]
  note t21 = batch_limit_boundary [where payload = "replicate 21 (1, 1)" and w = fresh_world
      and calculator = "ZoneBasedFareCalculator 0"]
  from t20 l(1) a have "\<exists>resp. fst (calculate_fares (ZoneBasedFareCalculator 0)
        (replicate 20 (1, 1)) fresh_world) = Inr resp
      \<and> journey_count resp = 20
      \<and> map (\<lambda>i. (from_zone i, to_zone i)) (journeys resp) = replicate 20 (1, 1)"
    by (simp add: MAX_JOURNEYS_PER_DAY_def)
  moreover from t21 l(2) have
    x: "calculate_fares (ZoneBasedFareCalculator 0) (replicate 21 (1, 1)) fresh_world =
       (Inl RequestValidationError, snd (validate_items (replicate 21 (1, 1)) fresh_world))"
    and y: "fare_cache (snd (calculate_fares (ZoneBasedFareCalculator 0) (replicate 21 (1, 1))
        fresh_world)) = fare_cache fresh_world"
    by blast+
  from x have
    "fst (calculate_fares (ZoneBasedFareCalculator 0) (replicate 21 (1, 1)) fresh_world) =
       Inl RequestValidationError"
    by simp
  moreover from y f have
    "fare_cache (snd (calculate_fares (ZoneBasedFareCalculator 0) (replicate 21 (1, 1))
        fresh_world)) = None"
    by (simp only:)
  moreover from t20 have
    "get_config_value (rule_store fresh_world) ''max_journeys_per_day'' = Some ''20''"
    by (simp add: fresh_world_def)
  ultimately show ?thesis using l r by blast
qed

end
